theory Spec2Isabelle
  imports Complex_Main "HOL-Library.Word"
begin

section \<open>Risk engine (\<open>RiskEngine.evaluateRedemption\<close>)\<close>

text \<open>
  The engine is a pure function of the historical context and the request metadata.
  JavaScript numbers are modelled as exact rationals (every finite double is one), and
  the arithmetic on them is exact. For the score this is what the code computes: every
  contribution is a multiple of 0.05, the rounding error of a sum of four doubles is far
  below 0.005, and the sum is passed through \<open>toFixed(2)\<close> before it is compared, so the
  score the decision sees is an exact number of hundredths. For the deviation the
  quotient is taken exactly; the rounding of the double quotient is not modelled.

  The reason strings of the source are tags here:
  \<^item> \<open>HighVelocity\<close>: 'High token generation velocity (10m)'
  \<^item> \<open>ElevatedVelocity\<close>: 'Elevated token generation velocity (10m)'
  \<^item> \<open>SignificantDeviation p\<close>: 'Significant deviation from average amount (p%)'
  \<^item> \<open>ModerateDeviation p\<close>: 'Moderate deviation from average amount (p%)'
  \<^item> \<open>ExcessiveFailed\<close>: 'Excessive failed redemption attempts (24h)'
  \<^item> \<open>ElevatedFailed\<close>: 'Elevated failed redemption attempts (24h)'
  \<^item> \<open>IpMismatch\<close>: 'IP address mismatch from last success'
\<close>

datatype decision = APPROVE | CHALLENGE | REJECT

datatype reason =
    HighVelocity
  | ElevatedVelocity
  | SignificantDeviation int
  | ModerateDeviation int
  | ExcessiveFailed
  | ElevatedFailed
  | IpMismatch

record risk_context =
  velocity10m :: int
  avgAmount :: rat
  failedAttempts24h :: int
  lastIp :: "string option"
  currentAmount :: rat

text \<open>Request metadata; an absent property (\<open>undefined\<close>) is \<open>None\<close>.\<close>

record metadata =
  ip :: "string option"
  deviceId :: "string option"
  location :: "string option"

record risk_result =
  score :: rat
  decision :: decision
  reasons :: "reason list"

text \<open>JavaScript truthiness of a string-or-null value: null, undefined and '' are falsy.\<close>

definition truthy :: "string option \<Rightarrow> bool" where
  "truthy v = (case v of None \<Rightarrow> False | Some s \<Rightarrow> s \<noteq> [])"

text \<open>\<open>a || d\<close> on such a value.\<close>

definition or_default :: "string option \<Rightarrow> string \<Rightarrow> string" where
  "or_default v d = (case v of None \<Rightarrow> d | Some s \<Rightarrow> if s = [] then d else s)"

text \<open>\<open>Math.round\<close>: nearest integer, ties towards plus infinity.\<close>

definition Math_round :: "rat \<Rightarrow> int" where
  "Math_round x = \<lfloor>x + 1 / 2\<rfloor>"

text \<open>\<open>parseFloat(x.toFixed(2))\<close>: nearest multiple of 0.01, of two the larger.\<close>

definition toFixed2 :: "rat \<Rightarrow> rat" where
  "toFixed2 x = of_int \<lfloor>x * 100 + 1 / 2\<rfloor> / 100"

text \<open>The running pair \<open>(score, reasons)\<close> of the function body.\<close>

type_synonym tally = "rat \<times> reason list"

text \<open>1. Velocity signal.\<close>

definition velocity_signal :: "risk_context \<Rightarrow> tally \<Rightarrow> tally" where
  "velocity_signal c t =
     (if velocity10m c > 3 then (fst t + 4 / 10, snd t @ [HighVelocity])
      else if velocity10m c > 1 then (fst t + 15 / 100, snd t @ [ElevatedVelocity])
      else t)"

text \<open>2. Behaviour signal: deviation from the average withdrawal amount.\<close>

definition behavior_signal :: "risk_context \<Rightarrow> tally \<Rightarrow> tally" where
  "behavior_signal c t =
     (if avgAmount c > 0 then
        (let deviation = \<bar>currentAmount c - avgAmount c\<bar> / avgAmount c in
         if deviation > 2 then
           (fst t + 3 / 10, snd t @ [SignificantDeviation (Math_round (deviation * 100))])
         else if deviation > 1 then
           (fst t + 15 / 100, snd t @ [ModerateDeviation (Math_round (deviation * 100))])
         else t)
      else t)"

text \<open>3. Abuse signal: failed redemptions in the last 24 hours.\<close>

definition abuse_signal :: "risk_context \<Rightarrow> tally \<Rightarrow> tally" where
  "abuse_signal c t =
     (if failedAttempts24h c > 5 then (fst t + 5 / 10, snd t @ [ExcessiveFailed])
      else if failedAttempts24h c > 2 then (fst t + 25 / 100, snd t @ [ElevatedFailed])
      else t)"

text \<open>4. Geo/IP signal: IP change since the last successful redemption.\<close>

definition ip_signal :: "risk_context \<Rightarrow> metadata \<Rightarrow> tally \<Rightarrow> tally" where
  "ip_signal c m t =
     (let currentIp = or_default (ip m) ''127.0.0.1'' in
      if truthy (lastIp c) \<and> lastIp c \<noteq> Some currentIp
      then (fst t + 2 / 10, snd t @ [IpMismatch])
      else t)"

text \<open>The score before \<open>toFixed\<close> and the cap, with the reasons, after the four signals.\<close>

definition raw_tally :: "risk_context \<Rightarrow> metadata \<Rightarrow> tally" where
  "raw_tally c m = ip_signal c m (abuse_signal c (behavior_signal c (velocity_signal c (0, []))))"

definition decide :: "rat \<Rightarrow> decision" where
  "decide s = (if s > 7 / 10 then REJECT else if s \<ge> 3 / 10 then CHALLENGE else APPROVE)"

definition evaluateRedemption :: "risk_context \<Rightarrow> metadata \<Rightarrow> risk_result" where
  "evaluateRedemption c m =
     (let t = raw_tally c m;
          s = min 1 (toFixed2 (fst t))
      in \<lparr>score = s, decision = decide s, reasons = snd t\<rparr>)"

subsection \<open>The scoring table as the specification words it\<close>

definition spec_velocity :: "risk_context \<Rightarrow> rat" where
  "spec_velocity c =
     (if velocity10m c > 3 then 40 / 100 else if velocity10m c > 1 then 15 / 100 else 0)"

definition spec_deviation :: "risk_context \<Rightarrow> rat" where
  "spec_deviation c =
     (if avgAmount c = 0 then 0
      else if \<bar>currentAmount c - avgAmount c\<bar> / avgAmount c > 2 then 30 / 100
      else if \<bar>currentAmount c - avgAmount c\<bar> / avgAmount c > 1 then 15 / 100
      else 0)"

definition spec_failed :: "risk_context \<Rightarrow> rat" where
  "spec_failed c =
     (if failedAttempts24h c > 5 then 50 / 100
      else if failedAttempts24h c > 2 then 25 / 100 else 0)"

definition spec_ip :: "risk_context \<Rightarrow> metadata \<Rightarrow> rat" where
  "spec_ip c m =
     (if truthy (lastIp c) \<and> lastIp c \<noteq> Some (or_default (ip m) ''127.0.0.1'')
      then 20 / 100 else 0)"

definition spec_score :: "risk_context \<Rightarrow> metadata \<Rightarrow> rat" where
  "spec_score c m =
     toFixed2 (min 1 (spec_velocity c + spec_deviation c + spec_failed c + spec_ip c m))"

section \<open>Crypto primitives of the token service\<close>

text \<open>
  The token service modelled here is the variant with a per-token salt, a global pepper
  and a prefix lookup. SHA-256 (Node's \<open>crypto\<close>) and the uuid check of the Joi schema are
  library code outside the repository: they are parameters of the model, and every
  theorem below holds for any choice of them. A digest is 32 bytes, a \<open>256 word\<close>.
\<close>

type_synonym byte = "8 word"
type_synonym bytes = "byte list"
type_synonym digest = "256 word"

record lib =
  sha256 :: "bytes \<Rightarrow> digest"
  joi_uuid :: "string \<Rightarrow> bool"

record token_config =
  pepper :: string
  expirySeconds :: int

text \<open>The bytes \<open>hash.update\<close> feeds for a string argument.\<close>

definition utf8 :: "string \<Rightarrow> bytes" where
  "utf8 s = map (\<lambda>c. of_nat (of_char c)) s"

text \<open>
  \<open>crypto.createHash('sha256')\<close> is a streaming context: it holds the bytes fed so far,
  and \<open>digest()\<close> hashes them.
\<close>

type_synonym hash_ctx = bytes

definition createHash :: hash_ctx where
  "createHash = []"

definition hash_update :: "hash_ctx \<Rightarrow> bytes \<Rightarrow> hash_ctx" where
  "hash_update h bs = h @ bs"

definition hash_digest :: "lib \<Rightarrow> hash_ctx \<Rightarrow> digest" where
  "hash_digest L h = sha256 L h"

definition hashToken :: "lib \<Rightarrow> token_config \<Rightarrow> string \<Rightarrow> bytes \<Rightarrow> digest" where
  "hashToken L cfg plaintextToken salt =
     hash_digest L
       (hash_update (hash_update (hash_update createHash (utf8 (pepper cfg)))
          (utf8 plaintextToken)) salt)"

text \<open>\<open>crypto.timingSafeEqual\<close> on two digests (equal lengths by type).\<close>

definition timingSafeEqual :: "digest \<Rightarrow> digest \<Rightarrow> bool" where
  "timingSafeEqual a b = (a = b)"

text \<open>
  The CSPRNG is a stream of values that the calls consume in order. \<open>crypto.randomInt(lo, hi)\<close>
  returns some integer in \<open>[lo, hi)\<close>, \<open>crypto.randomBytes(n)\<close> returns \<open>n\<close> bytes.
\<close>

type_synonym entropy = "nat \<Rightarrow> nat"

definition advance :: "nat \<Rightarrow> entropy \<Rightarrow> entropy" where
  "advance k e = (\<lambda>i. e (i + k))"

definition randomInt :: "nat \<Rightarrow> nat \<Rightarrow> entropy \<Rightarrow> nat \<times> entropy" where
  "randomInt lo hi e = (lo + e 0 mod (hi - lo), advance 1 e)"

definition randomBytes :: "nat \<Rightarrow> entropy \<Rightarrow> bytes \<times> entropy" where
  "randomBytes n e = (map (\<lambda>i. of_nat (e i)) [0..<n], advance n e)"

definition charset :: string where
  "charset = ''ABCDEFGHIJKLMNOPQRSTUVWXYZ0123456789''"

text \<open>The loop of \<open>generateRandomToken\<close>; the first argument counts the iterations left.\<close>

fun generateRandomToken_loop :: "nat \<Rightarrow> string \<Rightarrow> entropy \<Rightarrow> string \<times> entropy" where
  "generateRandomToken_loop 0 result e = (result, e)"
| "generateRandomToken_loop (Suc n) result e =
     (case randomInt 0 (length charset) e of
        (randomIndex, e') \<Rightarrow> generateRandomToken_loop n (result @ [charset ! randomIndex]) e')"

definition generateRandomToken :: "nat \<Rightarrow> entropy \<Rightarrow> string \<times> entropy" where
  "generateRandomToken len e = generateRandomToken_loop len [] e"

section \<open>Token store\<close>

text \<open>
  Row ids are UUIDs generated by the database; as strings they are never empty, so
  \<open>!matchedTokenId\<close> is true for \<open>null\<close> only. Instants are milliseconds since the epoch.
  Tables are lists in storage order. Columns that mint and redeem never read or write
  (\<open>created_at\<close>) are left out.
\<close>

datatype uuid = UUID nat

datatype token_status = ACTIVE | USED | EXPIRED

record token_row =
  tok_id :: uuid
  account_id :: string
  amount :: int
  token_hash :: digest
  salt :: bytes
  prefix :: string
  status :: token_status
  expires_at :: int
  used_at :: "int option"

record transaction_row =
  tx_id :: uuid
  tx_account_id :: string
  tx_token_id :: uuid
  tx_type :: string
  tx_amount :: int
  tx_status :: string

record attempt_row =
  att_token_id :: uuid
  att_agent_id :: string
  att_result :: string
  att_metadata :: metadata

record db =
  tokens :: "token_row list"
  transactions :: "transaction_row list"
  redemption_attempts :: "attempt_row list"

text \<open>
  What the service can throw: \<open>InvalidParams\<close> is the Error 'Invalid token generation
  params: ...', \<open>MaxRetriesExceeded\<close> the Error 'Failed to generate unique token after
  maximum retries', \<open>DbError code\<close> an error of the database driver with its \<open>code\<close>.
\<close>

datatype js_error = InvalidParams | MaxRetriesExceeded | DbError string

definition err_code :: "js_error \<Rightarrow> string option" where
  "err_code err = (case err of DbError c \<Rightarrow> Some c | _ \<Rightarrow> None)"

text \<open>
  What one \<open>insert\<close> into \<open>tokens\<close> meets: the id the database generates for the row, and
  the code of a fault of the database, if one strikes this statement.
\<close>

record insert_env =
  gen_uuid :: uuid
  db_fault :: "string option"

text \<open>
  Modelled from the spec: the migration that creates the \<open>token_hash\<close> column and its
  unique index is not among the sources; the index is invariant (I3) of the data model,
  and a violation is reported with the Postgres code 23505 that the retry loop tests for.
\<close>

definition insert_token :: "insert_env \<Rightarrow> db \<Rightarrow> token_row \<Rightarrow> js_error + (token_row \<times> db)" where
  "insert_token env d vals =
     (case db_fault env of
        Some code \<Rightarrow> Inl (DbError code)
      | None \<Rightarrow>
          if \<exists>t \<in> set (tokens d). token_hash t = token_hash vals then Inl (DbError ''23505'')
          else (let r = vals\<lparr>tok_id := gen_uuid env, used_at := None\<rparr>
                in Inr (r, d\<lparr>tokens := tokens d @ [r]\<rparr>)))"

section \<open>Mint (\<open>TokenService.generateWithdrawalToken\<close>)\<close>

record minted =
  m_id :: uuid
  m_token :: string
  m_amount :: int
  m_expiresAt :: int

text \<open>What the k-th pass through the loop meets: \<open>Date.now()\<close> and the insert.\<close>

record attempt_env =
  at_now :: int
  at_insert :: insert_env

text \<open>
  The state the loop threads: the database, the CSPRNG, and the rows handed to
  \<open>insert\<close> so far, one per attempt.
\<close>

record mint_state =
  ms_db :: db
  ms_entropy :: entropy
  ms_inserts :: "token_row list"

definition MAX_RETRIES :: nat where
  "MAX_RETRIES = 3"

text \<open>The Joi schema: \<open>accountId\<close> a uuid string, \<open>amount\<close> a positive integer.\<close>

definition validateGenerationParams :: "lib \<Rightarrow> string \<Rightarrow> int \<Rightarrow> bool" where
  "validateGenerationParams L accountId amt = (joi_uuid L accountId \<and> amt > 0)"

text \<open>
  The draws of one attempt, in the order of the source: the 8-character core, the
  4-character prefix, the 16-byte salt. The result is the plaintext, the row to insert
  (its id is the database's to fill in) and the CSPRNG after the draws.
\<close>

definition draw_token ::
  "lib \<Rightarrow> token_config \<Rightarrow> int \<Rightarrow> string \<Rightarrow> int \<Rightarrow> entropy \<Rightarrow> string \<times> token_row \<times> entropy" where
  "draw_token L cfg now accountId amt e =
     (case generateRandomToken 8 e of (coreToken, e1) \<Rightarrow>
      case generateRandomToken 4 e1 of (tokenIdPrefix, e2) \<Rightarrow>
      let plaintextToken = tokenIdPrefix @ ''-'' @ coreToken in
      case randomBytes 16 e2 of (slt, e3) \<Rightarrow>
      let tokenHash = hashToken L cfg plaintextToken slt;
          expiresAt = now + expirySeconds cfg * 1000
      in (plaintextToken,
          \<lparr>tok_id = UUID 0, account_id = accountId, amount = amt, token_hash = tokenHash,
             salt = slt, prefix = tokenIdPrefix, status = ACTIVE, expires_at = expiresAt,
             used_at = None\<rparr>,
          e3))"

text \<open>How one pass through the \<open>try\<close>/\<open>catch\<close> of the loop ends.\<close>

datatype attempt_result = Return minted | Throw js_error | Continue

definition mint_attempt ::
  "lib \<Rightarrow> token_config \<Rightarrow> attempt_env \<Rightarrow> string \<Rightarrow> int \<Rightarrow> nat \<Rightarrow> mint_state
     \<Rightarrow> attempt_result \<times> mint_state" where
  "mint_attempt L cfg w accountId amt retries st =
     (case draw_token L cfg (at_now w) accountId amt (ms_entropy st) of
        (plaintextToken, vals, e') \<Rightarrow>
          (let st' = st\<lparr>ms_entropy := e', ms_inserts := ms_inserts st @ [vals]\<rparr> in
           case insert_token (at_insert w) (ms_db st) vals of
             Inr (tokenRecord, d') \<Rightarrow>
               (Return \<lparr>m_id = tok_id tokenRecord, m_token = plaintextToken, m_amount = amt,
                         m_expiresAt = expires_at vals\<rparr>,
                st'\<lparr>ms_db := d'\<rparr>)
           | Inl err \<Rightarrow>
               if err_code err = Some ''23505'' then
                 (if retries + 1 \<ge> MAX_RETRIES then (Throw MaxRetriesExceeded, st')
                  else (Continue, st'))
               else (Throw err, st')))"

text \<open>
  The \<open>while (retries < MAX_RETRIES)\<close> loop. \<open>W k\<close> is what the pass with \<open>retries = k\<close>
  meets. Leaving the loop by its condition would return \<open>undefined\<close>, here \<open>Inr None\<close>.
\<close>

function mint_loop ::
  "lib \<Rightarrow> token_config \<Rightarrow> (nat \<Rightarrow> attempt_env) \<Rightarrow> string \<Rightarrow> int \<Rightarrow> nat \<Rightarrow> mint_state
     \<Rightarrow> (js_error + minted option) \<times> mint_state" where
  "mint_loop L cfg W accountId amt retries st =
     (if retries < MAX_RETRIES then
        (case mint_attempt L cfg (W retries) accountId amt retries st of
           (Return m, st') \<Rightarrow> (Inr (Some m), st')
         | (Throw err, st') \<Rightarrow> (Inl err, st')
         | (Continue, st') \<Rightarrow> mint_loop L cfg W accountId amt (retries + 1) st')
      else (Inr None, st))"
  by pat_completeness auto
termination
  by (relation "measure (\<lambda>(L, cfg, W, accountId, amt, retries, st). MAX_RETRIES - retries)") auto

declare mint_loop.simps [simp del]

definition generateWithdrawalToken ::
  "lib \<Rightarrow> token_config \<Rightarrow> (nat \<Rightarrow> attempt_env) \<Rightarrow> entropy \<Rightarrow> db \<Rightarrow> string \<Rightarrow> int
     \<Rightarrow> (js_error + minted option) \<times> mint_state" where
  "generateWithdrawalToken L cfg W e d accountId amt =
     (let st = \<lparr>ms_db = d, ms_entropy = e, ms_inserts = []\<rparr> in
      if \<not> validateGenerationParams L accountId amt then (Inl InvalidParams, st)
      else mint_loop L cfg W accountId amt 0 st)"

subsection \<open>The attempts of a mint, by number\<close>

text \<open>
  One attempt draws 8 + 4 + 16 = 28 values from the CSPRNG, and a failed insert leaves the
  database as it was. So the k-th attempt (from 0) of a mint that starts with the CSPRNG
  \<open>e\<close> and the database \<open>d\<close> draws from \<open>advance (28 * k) e\<close> and inserts into \<open>d\<close>.
\<close>

definition attempt_plaintext ::
  "lib \<Rightarrow> token_config \<Rightarrow> (nat \<Rightarrow> attempt_env) \<Rightarrow> entropy \<Rightarrow> string \<Rightarrow> int \<Rightarrow> nat \<Rightarrow> string" where
  "attempt_plaintext L cfg W e accountId amt k =
     fst (draw_token L cfg (at_now (W k)) accountId amt (advance (28 * k) e))"

definition attempt_row ::
  "lib \<Rightarrow> token_config \<Rightarrow> (nat \<Rightarrow> attempt_env) \<Rightarrow> entropy \<Rightarrow> string \<Rightarrow> int \<Rightarrow> nat \<Rightarrow> token_row" where
  "attempt_row L cfg W e accountId amt k =
     fst (snd (draw_token L cfg (at_now (W k)) accountId amt (advance (28 * k) e)))"

definition attempt_insert ::
  "lib \<Rightarrow> token_config \<Rightarrow> (nat \<Rightarrow> attempt_env) \<Rightarrow> entropy \<Rightarrow> db \<Rightarrow> string \<Rightarrow> int \<Rightarrow> nat
     \<Rightarrow> js_error + (token_row \<times> db)" where
  "attempt_insert L cfg W e d accountId amt k =
     insert_token (at_insert (W k)) d (attempt_row L cfg W e accountId amt k)"

definition collides ::
  "lib \<Rightarrow> token_config \<Rightarrow> (nat \<Rightarrow> attempt_env) \<Rightarrow> entropy \<Rightarrow> db \<Rightarrow> string \<Rightarrow> int \<Rightarrow> nat \<Rightarrow> bool" where
  "collides L cfg W e d accountId amt k =
     (attempt_insert L cfg W e d accountId amt k = Inl (DbError ''23505''))"

text \<open>The state of the loop after \<open>k\<close> collisions.\<close>

definition after_collisions ::
  "lib \<Rightarrow> token_config \<Rightarrow> (nat \<Rightarrow> attempt_env) \<Rightarrow> entropy \<Rightarrow> db \<Rightarrow> string \<Rightarrow> int \<Rightarrow> nat
     \<Rightarrow> mint_state" where
  "after_collisions L cfg W e d accountId amt k =
     \<lparr>ms_db = d, ms_entropy = advance (28 * k) e,
        ms_inserts = map (attempt_row L cfg W e accountId amt) [0..<k]\<rparr>"

text \<open>
  A mint that ended in its attempt number \<open>n\<close>: the attempts before it collided, and
  the insert of attempt \<open>n\<close> decides the result.
\<close>

definition ended_at ::
  "lib \<Rightarrow> token_config \<Rightarrow> (nat \<Rightarrow> attempt_env) \<Rightarrow> entropy \<Rightarrow> db \<Rightarrow> string \<Rightarrow> int \<Rightarrow> nat
     \<Rightarrow> (js_error + minted option) \<Rightarrow> mint_state \<Rightarrow> bool" where
  "ended_at L cfg W e d accountId amt n res st =
     (ms_inserts st = map (attempt_row L cfg W e accountId amt) [0..<Suc n]
      \<and> ms_entropy st = advance (28 * Suc n) e
      \<and> (\<forall>j<n. collides L cfg W e d accountId amt j)
      \<and> (case attempt_insert L cfg W e d accountId amt n of
            Inr (r, d') \<Rightarrow>
              res = Inr (Some \<lparr>m_id = tok_id r,
                               m_token = attempt_plaintext L cfg W e accountId amt n,
                               m_amount = amt,
                               m_expiresAt = expires_at (attempt_row L cfg W e accountId amt n)\<rparr>)
              \<and> ms_db st = d'
          | Inl err \<Rightarrow>
              ms_db st = d
              \<and> (if err = DbError ''23505'' then n = 2 \<and> res = Inl MaxRetriesExceeded
                  else res = Inl err)))"

section \<open>Redeem (\<open>TokenService.redeemWithdrawalToken\<close>)\<close>

datatype redeem_result = INVALID | EXPIRED_OR_USED | SUCCESS uuid uuid

text \<open>
  The statements a redemption sends to the database, in order: opening the transaction,
  the candidate scan (prefix, instant), the locking re-read (id), the guarded update
  (id, instant), the two inserts, and the commit when the callback returns.
\<close>

datatype db_op =
    Begin
  | SelectCandidates string int
  | SelectForUpdate uuid
  | UpdateUsed uuid int
  | InsertTransaction uuid
  | InsertAttempt uuid string
  | Commit

text \<open>
  What one redemption meets: the three readings of the clock (\<open>new Date()\<close> in the
  candidate scan, in the check under the lock, and for \<open>used_at\<close>) and the id the
  database generates for the ledger row.
\<close>

record redeem_env =
  now_scan :: int
  now_lock :: int
  now_used :: int
  new_tx_id :: uuid

text \<open>\<open>s.split(d)\<close> for a one-character separator: never empty, \<open>''\<close> gives \<open>['']\<close>.\<close>

fun split_on :: "char \<Rightarrow> string \<Rightarrow> string list" where
  "split_on d [] = [Nil]"
| "split_on d (c # cs) =
     (if c = d then [] # split_on d cs
      else (case split_on d cs of [] \<Rightarrow> [c # Nil] | p # ps \<Rightarrow> (c # p) # ps))"

definition str_includes :: "string \<Rightarrow> char \<Rightarrow> bool" where
  "str_includes s d = (d \<in> set s)"

text \<open>The verification loop over the candidates: the id of the first row whose hash matches.\<close>

fun find_match :: "lib \<Rightarrow> token_config \<Rightarrow> string \<Rightarrow> token_row list \<Rightarrow> uuid option" where
  "find_match L cfg fullToken [] = None"
| "find_match L cfg fullToken (t # ts) =
     (let candidateHash = hashToken L cfg fullToken (salt t) in
      if timingSafeEqual candidateHash (token_hash t) then Some (tok_id t)
      else find_match L cfg fullToken ts)"

text \<open>\<open>where({prefix, status: 'ACTIVE'}).andWhere('expires_at', '>', now)\<close>\<close>

definition select_candidates :: "db \<Rightarrow> string \<Rightarrow> int \<Rightarrow> token_row list" where
  "select_candidates d pfx now =
     filter (\<lambda>t. prefix t = pfx \<and> status t = ACTIVE \<and> expires_at t > now) (tokens d)"

text \<open>\<open>where({id}).forUpdate().first()\<close>\<close>

definition select_for_update :: "db \<Rightarrow> uuid \<Rightarrow> token_row option" where
  "select_for_update d i = find (\<lambda>t. tok_id t = i) (tokens d)"

text \<open>\<open>where({id, status: 'ACTIVE'}).update({status: 'USED', used_at})\<close>\<close>

definition update_used :: "db \<Rightarrow> uuid \<Rightarrow> int \<Rightarrow> db" where
  "update_used d i now =
     d\<lparr>tokens := map (\<lambda>t. if tok_id t = i \<and> status t = ACTIVE
                            then t\<lparr>status := USED, used_at := Some now\<rparr> else t) (tokens d)\<rparr>"

definition insert_transaction :: "db \<Rightarrow> transaction_row \<Rightarrow> db" where
  "insert_transaction d r = d\<lparr>transactions := transactions d @ [r]\<rparr>"

definition insert_attempt :: "db \<Rightarrow> attempt_row \<Rightarrow> db" where
  "insert_attempt d r = d\<lparr>redemption_attempts := redemption_attempts d @ [r]\<rparr>"

text \<open>
  The callback of \<open>db.transaction\<close>. The model covers the runs in which every statement
  is answered; a fault of the database would reject the promise and roll back.
\<close>

definition redeem_transaction ::
  "lib \<Rightarrow> token_config \<Rightarrow> redeem_env \<Rightarrow> db \<Rightarrow> string \<Rightarrow> string \<Rightarrow> string \<Rightarrow> metadata
     \<Rightarrow> redeem_result \<times> db \<times> db_op list" where
  "redeem_transaction L cfg env d fullToken pfx agentId md =
     (let candidateTokens = select_candidates d pfx (now_scan env);
          ops1 = [Begin, SelectCandidates pfx (now_scan env)]
      in case find_match L cfg fullToken candidateTokens of
           None \<Rightarrow> (INVALID, d, ops1 @ [Commit])
         | Some matchedTokenId \<Rightarrow>
             (let ops2 = ops1 @ [SelectForUpdate matchedTokenId] in
              case select_for_update d matchedTokenId of
                None \<Rightarrow> (EXPIRED_OR_USED, d, ops2 @ [Commit])
              | Some token \<Rightarrow>
                  if status token \<noteq> ACTIVE \<or> now_lock env \<ge> expires_at token
                  then (EXPIRED_OR_USED, d, ops2 @ [Commit])
                  else
                    (let d1 = update_used d (tok_id token) (now_used env);
                         d2 = insert_transaction d1
                                \<lparr>tx_id = new_tx_id env, tx_account_id = account_id token,
                                   tx_token_id = tok_id token, tx_type = ''WITHDRAWAL'',
                                   tx_amount = amount token, tx_status = ''SUCCESS''\<rparr>;
                         d3 = insert_attempt d2
                                \<lparr>att_token_id = tok_id token, att_agent_id = agentId,
                                   att_result = ''SUCCESS'', att_metadata = md\<rparr>
                     in (SUCCESS (tok_id token) (new_tx_id env), d3,
                         ops2 @ [UpdateUsed (tok_id token) (now_used env),
                                 InsertTransaction (tok_id token),
                                 InsertAttempt (tok_id token) ''SUCCESS'', Commit]))))"

text \<open>
  \<open>fullToken\<close> and \<open>agentId\<close> may be \<open>null\<close> or \<open>undefined\<close> (\<open>None\<close>). The destructuring
  \<open>[prefix, coreToken] = fullToken.split('-')\<close> reads the first two pieces; there are at
  least two once \<open>includes('-')\<close> holds.
\<close>

definition redeemWithdrawalToken ::
  "lib \<Rightarrow> token_config \<Rightarrow> redeem_env \<Rightarrow> db \<Rightarrow> string option \<Rightarrow> string option \<Rightarrow> metadata
     \<Rightarrow> redeem_result \<times> db \<times> db_op list" where
  "redeemWithdrawalToken L cfg env d fullToken agentId md =
     (case fullToken of
        None \<Rightarrow> (INVALID, d, [])
      | Some ft \<Rightarrow>
          if ft = [] \<or> \<not> str_includes ft CHR ''-'' \<or> \<not> truthy agentId then (INVALID, d, [])
          else
            (let parts = split_on CHR ''-'' ft;
                 pfx = parts ! 0;
                 coreToken = parts ! 1
             in if length pfx \<noteq> 4 \<or> length coreToken \<noteq> 8 then (INVALID, d, [])
                else redeem_transaction L cfg env d ft pfx (the agentId) md))"

text \<open>The pattern \<open>^[A-Z0-9]{4}-[A-Z0-9]{8}$\<close> of the redeem route's schema.\<close>

definition is_token_char :: "char \<Rightarrow> bool" where
  "is_token_char c = (c \<in> set charset)"

definition matches_pattern :: "string \<Rightarrow> bool" where
  "matches_pattern s =
     (length s = 13 \<and> list_all is_token_char (take 4 s) \<and> s ! 4 = CHR ''-''
        \<and> list_all is_token_char (drop 5 s))"

text \<open>The two shape checks of the service, as one predicate on its arguments.\<close>

definition shape_ok :: "string option \<Rightarrow> string option \<Rightarrow> bool" where
  "shape_ok fullToken agentId =
     (case fullToken of
        None \<Rightarrow> False
      | Some ft \<Rightarrow> CHR ''-'' \<in> set ft \<and> truthy agentId
                    \<and> length (split_on CHR ''-'' ft ! 0) = 4
                    \<and> length (split_on CHR ''-'' ft ! 1) = 8)"

section \<open>Rate limiter (\<open>createRateLimiter\<close>)\<close>

record request =
  req_id :: "string option"
  req_ip :: string
  routerPath :: "string option"
  url :: string
  req_method :: string

record limiter_options =
  windowMs :: int
  maxRequests :: int
  keyGenerator :: "request \<Rightarrow> string"
  skipSuccessfulRequests :: bool

text \<open>The default key: \<open>rate_limit:${request.ip}:${request.routerPath || request.url}\<close>.\<close>

definition default_keyGenerator :: "request \<Rightarrow> string" where
  "default_keyGenerator r =
     ''rate_limit:'' @ req_ip r @ '':'' @ or_default (routerPath r) (url r)"

text \<open>
  The commands sent to Redis. The store is outside the repository: it is the function
  that gives each command its answer, \<open>Inl\<close> the message of a rejected command and
  \<open>Inr\<close> the integer reply.
\<close>

datatype redis_cmd =
    ZREMRANGEBYSCORE string int int
  | ZCARD string
  | TTL string
  | ZADD string int string
  | EXPIRE string int
  | ZREM string string

type_synonym redis = "redis_cmd \<Rightarrow> string + int"

text \<open>
  The body of the 429 response carries \<open>retryAfter\<close>, \<open>limit\<close> and \<open>windowMs\<close>; the body of
  the error handler carries the status code; any other body is the downstream handler's.
\<close>

datatype payload = TooManyRequests int int int | ErrorResponse int | Body string

text \<open>
  The reply: its status, the payload once sent, the headers set (the reset instant in
  milliseconds), and the wrappers put around \<open>reply.send\<close>, each holding the key and the
  member it removes.
\<close>

record reply =
  statusCode :: int
  sent :: "payload option"
  headers :: "(string \<times> int) list"
  send_hooks :: "(string \<times> string) list"

record log_entry =
  level :: string
  event_type :: string
  msg :: string

text \<open>What handling a request threads: the reply, the log, and the commands with their answers.\<close>

record lim_state =
  ls_reply :: reply
  ls_log :: "log_entry list"
  ls_cmds :: "(redis_cmd \<times> (string + int)) list"

subsection \<open>The logger (\<open>utils/logger.js\<close>)\<close>

text \<open>
  The logger is a pino instance at the level of \<open>LOG_LEVEL\<close> (default \<open>info\<close>); pino is
  outside the repository. Its level methods are numbered as below; \<open>silent\<close> has no number
  and enables none. A method below the configured level is the no-op function. An
  enabled method writes through \<open>this\<close>: called on the logger (\<open>logger.error(...)\<close>) it
  appends the entry, called detached (\<open>const logFn = logger[level]; logFn(...)\<close>) it
  finds \<open>this\<close> undefined and throws a TypeError before anything is written.
\<close>

definition level_value :: "string \<Rightarrow> nat option" where
  "level_value l =
     (if l = ''trace'' then Some 10 else if l = ''debug'' then Some 20
      else if l = ''info'' then Some 30 else if l = ''warn'' then Some 40
      else if l = ''error'' then Some 50 else if l = ''fatal'' then Some 60 else None)"

definition level_enabled :: "string \<Rightarrow> string \<Rightarrow> bool" where
  "level_enabled configured l =
     (case level_value configured of
        None \<Rightarrow> False
      | Some t \<Rightarrow> (case level_value l of None \<Rightarrow> False | Some v \<Rightarrow> t \<le> v))"

definition pino_method ::
  "string \<Rightarrow> string \<Rightarrow> bool \<Rightarrow> log_entry \<Rightarrow> log_entry list \<Rightarrow> string + log_entry list" where
  "pino_method configured l bound entry lg =
     (if \<not> level_enabled configured l then Inr lg
      else if bound then Inr (lg @ [entry])
      else Inl ''TypeError'')"

text \<open>
  \<open>logSecurity(level, message, context)\<close>: \<open>logger[level] || logger.warn\<close>, called detached.
  \<open>Inl\<close> is the exception the call throws.
\<close>

definition logSecurity :: "string \<Rightarrow> string \<Rightarrow> string \<Rightarrow> lim_state \<Rightarrow> string + lim_state" where
  "logSecurity configured lvl message st =
     (if lvl = ''silent'' then Inr st
      else
        (let logFn = (if level_value lvl = None then ''warn'' else lvl) in
         case pino_method configured logFn False
                \<lparr>level = logFn, event_type = ''SECURITY'', msg = message\<rparr> (ls_log st) of
           Inl e \<Rightarrow> Inl e
         | Inr lg \<Rightarrow> Inr (st\<lparr>ls_log := lg\<rparr>)))"

text \<open>\<open>logError(error, context)\<close> for an Error object: \<open>logger.error(...)\<close>, called on the logger.\<close>

definition logError :: "string \<Rightarrow> string \<Rightarrow> lim_state \<Rightarrow> lim_state" where
  "logError configured message st =
     (case pino_method configured ''error'' True
             \<lparr>level = ''error'', event_type = ''ERROR'', msg = message\<rparr> (ls_log st) of
        Inl e \<Rightarrow> st
      | Inr lg \<Rightarrow> st\<lparr>ls_log := lg\<rparr>)"

subsection \<open>The middleware\<close>

definition Math_ceil :: "rat \<Rightarrow> int" where
  "Math_ceil x = \<lceil>x\<rceil>"

text \<open>
  \<open>reply.send\<close>: each wrapper installed by a limiter with \<open>skipSuccessfulRequests\<close> sends
  \<open>ZREM\<close> when the status is below 400 and ignores a rejection; then the payload goes out.
\<close>

definition reply_send :: "redis \<Rightarrow> payload \<Rightarrow> lim_state \<Rightarrow> lim_state" where
  "reply_send R p st =
     (let cleanup = (if statusCode (ls_reply st) < 400
                     then map (\<lambda>(key, requestId). (ZREM key requestId, R (ZREM key requestId)))
                            (send_hooks (ls_reply st))
                     else [])
      in st\<lparr>ls_cmds := ls_cmds st @ cleanup, ls_reply := (ls_reply st)\<lparr>sent := Some p\<rparr>\<rparr>)"

text \<open>
  \<open>await redis.cmd(...)\<close> inside the \<open>try\<close> block: the command is sent; a rejection
  leaves the block with the message (\<open>Inl\<close>), an answer goes to the rest of the block.
\<close>

definition await ::
  "redis \<Rightarrow> redis_cmd \<Rightarrow> lim_state \<Rightarrow> (int \<Rightarrow> lim_state \<Rightarrow> (string \<times> lim_state) + lim_state)
     \<Rightarrow> (string \<times> lim_state) + lim_state" where
  "await R c st k =
     (let st' = st\<lparr>ls_cmds := ls_cmds st @ [(c, R c)]\<rparr> in
      case R c of Inl e \<Rightarrow> Inl (e, st') | Inr v \<Rightarrow> k v st')"

text \<open>
  The \<open>try\<close> block of the middleware; \<open>configured\<close> is the level of the logger, \<open>now\<close> is
  \<open>Date.now()\<close> and \<open>uuid\<close> what \<open>crypto.randomUUID()\<close> would return. \<open>Inl\<close> is what the block
  throws, a rejected command or the exception of \<open>logSecurity\<close>, with the state at the throw.
\<close>

definition try_block ::
  "string \<Rightarrow> limiter_options \<Rightarrow> redis \<Rightarrow> int \<Rightarrow> string \<Rightarrow> request \<Rightarrow> lim_state
     \<Rightarrow> (string \<times> lim_state) + lim_state" where
  "try_block configured opts R now uuid request st =
     (let key = keyGenerator opts request;
          windowStart = now - windowMs opts
      in
      await R (ZREMRANGEBYSCORE key 0 windowStart) st (\<lambda>_ st1.
      await R (ZCARD key) st1 (\<lambda>currentCount st2.
        if currentCount \<ge> maxRequests opts then
          await R (TTL key) st2 (\<lambda>ttl st3.
            (let resetTime = now + (if ttl > 0 then ttl * 1000 else windowMs opts) in
             case logSecurity configured ''warn'' ''Rate limit exceeded'' st3 of
               Inl e \<Rightarrow> Inl (e, st3)
             | Inr st4 \<Rightarrow>
                 (let st5 = st4\<lparr>ls_reply := (ls_reply st4)\<lparr>statusCode := 429\<rparr>\<rparr>
                  in Inr (reply_send R
                            (TooManyRequests (Math_ceil (of_int (resetTime - now) / 1000))
                               (maxRequests opts) (windowMs opts))
                            st5))))
        else
          (let requestId = or_default (req_id request) uuid in
           await R (ZADD key now requestId) st2 (\<lambda>_ st3.
           await R (EXPIRE key (Math_ceil (of_int (windowMs opts) / 1000))) st3 (\<lambda>_ st4.
             (let rp = ls_reply st4;
                  rp1 = rp\<lparr>headers := headers rp @
                          [(''X-RateLimit-Limit'', maxRequests opts),
                           (''X-RateLimit-Remaining'', max 0 (maxRequests opts - currentCount - 1)),
                           (''X-RateLimit-Reset'', now + windowMs opts)]\<rparr>;
                  rp2 = (if skipSuccessfulRequests opts
                         then rp1\<lparr>send_hooks := (key, requestId) # send_hooks rp1\<rparr>
                         else rp1)
              in Inr (st4\<lparr>ls_reply := rp2\<rparr>))))))))"

text \<open>
  The middleware, an async function: the \<open>try\<close> block, and the \<open>catch\<close> that calls
  \<open>logSecurity\<close> and returns. An exception thrown inside the \<open>catch\<close> leaves the function:
  its promise is rejected.
\<close>

datatype hook_result = Resolved | Rejected string

definition rateLimiter ::
  "string \<Rightarrow> limiter_options \<Rightarrow> redis \<Rightarrow> int \<Rightarrow> string \<Rightarrow> request \<Rightarrow> lim_state
     \<Rightarrow> hook_result \<times> lim_state" where
  "rateLimiter configured opts R now uuid request st =
     (case try_block configured opts R now uuid request st of
        Inr st' \<Rightarrow> (Resolved, st')
      | Inl (error, st') \<Rightarrow>
          (case logSecurity configured ''error'' ''Rate limiter Redis error'' st' of
             Inr st'' \<Rightarrow> (Resolved, st'')
           | Inl e \<Rightarrow> (Rejected e, st')))"

text \<open>
  \<open>errorHandler\<close> (\<open>utils/errorHandler.js\<close>) for an error without \<open>statusCode\<close>: it logs the
  error twice (the structured \<open>logError\<close>, then the one of \<open>utils/errors.js\<close>, which calls
  the structured one again) and replies 500.
\<close>

definition errorHandler :: "string \<Rightarrow> redis \<Rightarrow> string \<Rightarrow> lim_state \<Rightarrow> lim_state" where
  "errorHandler configured R message st =
     (let st1 = logError configured message st;
          st2 = logError configured message st1;
          st3 = st2\<lparr>ls_reply := (ls_reply st2)\<lparr>statusCode := 500\<rparr>\<rparr>
      in reply_send R (ErrorResponse 500) st3)"

text \<open>
  The state a request starts in, and the request under the \<open>onRequest\<close> hook. When the
  hook rejects, the error handler answers and the route handler does not run; when the
  hook has sent a reply the handler does not run either; otherwise it runs, sets its
  status and sends its body. The boolean tells whether the handler ran.
\<close>

definition fresh_state :: lim_state where
  "fresh_state =
     \<lparr>ls_reply = \<lparr>statusCode = 200, sent = None, headers = [], send_hooks = []\<rparr>,
        ls_log = [], ls_cmds = []\<rparr>"

definition handle_request ::
  "string \<Rightarrow> limiter_options \<Rightarrow> redis \<Rightarrow> int \<Rightarrow> string \<Rightarrow> request \<Rightarrow> int \<Rightarrow> string
     \<Rightarrow> lim_state \<times> bool" where
  "handle_request configured opts R now uuid request handler_status handler_body =
     (case rateLimiter configured opts R now uuid request fresh_state of
        (Rejected e, st) \<Rightarrow> (errorHandler configured R e st, False)
      | (Resolved, st) \<Rightarrow>
          if sent (ls_reply st) \<noteq> None then (st, False)
          else (reply_send R (Body handler_body)
                  (st\<lparr>ls_reply := (ls_reply st)\<lparr>statusCode := handler_status\<rparr>\<rparr>), True))"

text \<open>The commands that Redis rejected, and the SECURITY entries of the log.\<close>

definition failed_cmds :: "lim_state \<Rightarrow> redis_cmd list" where
  "failed_cmds st = map fst (filter (\<lambda>(c, r). isl r) (ls_cmds st))"

definition security_entries :: "lim_state \<Rightarrow> log_entry list" where
  "security_entries st = filter (\<lambda>l. event_type l = ''SECURITY'') (ls_log st)"

section \<open>Concrete inputs\<close>

text \<open>
  Inputs at which the properties below are evaluated. \<open>collide_lib\<close> hashes everything to
  0, so every mint collides with the one stored row of \<open>db_one\<close>; \<open>len_lib\<close> hashes a
  message to its length and the sum of its bytes, enough to tell apart the messages used.
\<close>

definition collide_lib :: lib where
  "collide_lib = \<lparr>sha256 = (\<lambda>bs. 0), joi_uuid = (\<lambda>s. True)\<rparr>"

definition len_lib :: lib where
  "len_lib = \<lparr>sha256 = (\<lambda>bs. of_nat (length bs) * 65536 + of_nat (sum_list (map unat bs))),
               joi_uuid = (\<lambda>s. True)\<rparr>"

definition cfg0 :: token_config where
  "cfg0 = \<lparr>pepper = ''pepper'', expirySeconds = 300\<rparr>"

definition acct0 :: string where
  "acct0 = ''a1111111-1111-1111-1111-111111111111''"

definition world_ok :: "nat \<Rightarrow> attempt_env" where
  "world_ok k = \<lparr>at_now = 1000, at_insert = \<lparr>gen_uuid = UUID 7, db_fault = None\<rparr>\<rparr>"

definition world_down :: "nat \<Rightarrow> attempt_env" where
  "world_down k = \<lparr>at_now = 1000, at_insert = \<lparr>gen_uuid = UUID 7, db_fault = Some ''08006''\<rparr>\<rparr>"

definition zeros :: entropy where
  "zeros = (\<lambda>i. 0)"

definition db_empty :: db where
  "db_empty = \<lparr>tokens = [], transactions = [], redemption_attempts = []\<rparr>"

definition row_one :: token_row where
  "row_one = \<lparr>tok_id = UUID 1, account_id = acct0, amount = 50, token_hash = 0, salt = [],
               prefix = ''ZZZZ'', status = ACTIVE, expires_at = 5000, used_at = None\<rparr>"

definition db_one :: db where
  "db_one = \<lparr>tokens = [row_one], transactions = [], redemption_attempts = []\<rparr>"

definition md0 :: metadata where
  "md0 = \<lparr>ip = Some ''10.0.0.1'', deviceId = None, location = None\<rparr>"

text \<open>
  Redemptions: one well before the expiry of the token minted at 1000 with a TTL of 300
  seconds, a later one, and one with every clock reading exactly at the expiry.
\<close>

definition renv_early :: redeem_env where
  "renv_early = \<lparr>now_scan = 2000, now_lock = 2001, now_used = 2002, new_tx_id = UUID 9\<rparr>"

definition renv_later :: redeem_env where
  "renv_later = \<lparr>now_scan = 3000, now_lock = 3001, now_used = 3002, new_tx_id = UUID 10\<rparr>"

definition renv_at_expiry :: redeem_env where
  "renv_at_expiry =
     \<lparr>now_scan = 301000, now_lock = 301000, now_used = 301000, new_tx_id = UUID 9\<rparr>"

definition renv_straddle :: redeem_env where
  "renv_straddle =
     \<lparr>now_scan = 300999, now_lock = 301000, now_used = 301001, new_tx_id = UUID 9\<rparr>"

definition db_minted :: db where
  "db_minted =
     ms_db (snd (generateWithdrawalToken len_lib cfg0 world_ok zeros db_empty acct0 100))"

definition db_redeemed :: db where
  "db_redeemed =
     fst (snd (redeemWithdrawalToken len_lib cfg0 renv_early db_minted
                 (Some ''AAAA-AAAAAAAA'') (Some ''atm-1'') md0))"

text \<open>The row that mint stores: the CSPRNG of zeros gives AAAA-AAAAAAAA and a salt of zeros.\<close>

definition zero_salt :: bytes where
  "zero_salt = [0, 0, 0, 0, 0, 0, 0, 0, 0, 0, 0, 0, 0, 0, 0, 0]"

definition row_minted :: token_row where
  "row_minted =
     \<lparr>tok_id = UUID 7, account_id = acct0, amount = 100,
        token_hash = hashToken len_lib cfg0 ''AAAA-AAAAAAAA'' zero_salt,
        salt = zero_salt, prefix = ''AAAA'', status = ACTIVE,
        expires_at = 301000, used_at = None\<rparr>"

text \<open>
  A request to the mint route under a limiter of 10 requests a minute; a Redis that
  rejects every command, one that answers every command with 1 and counts no member in
  the window, and one that counts 10.
\<close>

definition opts0 :: limiter_options where
  "opts0 = \<lparr>windowMs = 60000, maxRequests = 10, keyGenerator = default_keyGenerator,
             skipSuccessfulRequests = False\<rparr>"

definition request0 :: request where
  "request0 = \<lparr>req_id = Some ''req-1'', req_ip = ''10.0.0.1'', routerPath = Some ''/tokens'',
                url = ''/tokens'', req_method = ''POST''\<rparr>"

definition redis_down :: redis where
  "redis_down = (\<lambda>c. Inl ''ECONNREFUSED'')"

definition redis_idle :: redis where
  "redis_idle = (\<lambda>c. case c of ZCARD key \<Rightarrow> Inr 0 | _ \<Rightarrow> Inr 1)"

definition redis_full :: redis where
  "redis_full = (\<lambda>c. case c of ZCARD key \<Rightarrow> Inr 10 | TTL key \<Rightarrow> Inr 30 | _ \<Rightarrow> Inr 1)"

section \<open>Risk engine: properties\<close>

lemma fst_velocity_signal: "fst (velocity_signal c t) = fst t + spec_velocity c"
  by (simp add: velocity_signal_def spec_velocity_def)

lemma deviation_nonpos:
  fixes a x :: rat
  assumes "a < 0"
  shows "\<bar>x - a\<bar> / a \<le> 0"
  using assms by (simp add: divide_le_0_iff)

lemma fst_behavior_signal: "fst (behavior_signal c t) = fst t + spec_deviation c"
proof (cases "avgAmount c > 0")
  case True
  then show ?thesis
    by (simp add: behavior_signal_def spec_deviation_def Let_def)
next
  case False
  show ?thesis
  proof (cases "avgAmount c = 0")
    case True
    then show ?thesis
      by (simp add: behavior_signal_def spec_deviation_def)
  next
    case nz: False
    with False have neg: "avgAmount c < 0" by simp
    have "\<bar>currentAmount c - avgAmount c\<bar> / avgAmount c \<le> 0"
      by (rule deviation_nonpos [OF neg])
    then have "\<not> \<bar>currentAmount c - avgAmount c\<bar> / avgAmount c > 2"
      and "\<not> \<bar>currentAmount c - avgAmount c\<bar> / avgAmount c > 1"
      by linarith+
    then have d: "(\<bar>currentAmount c - avgAmount c\<bar> / avgAmount c > 2) = False"
      "(\<bar>currentAmount c - avgAmount c\<bar> / avgAmount c > 1) = False"
      by blast+
    show ?thesis
      unfolding behavior_signal_def spec_deviation_def d using False nz by simp
  qed
qed

lemma fst_abuse_signal: "fst (abuse_signal c t) = fst t + spec_failed c"
  by (simp add: abuse_signal_def spec_failed_def)

lemma fst_ip_signal: "fst (ip_signal c m t) = fst t + spec_ip c m"
  by (simp add: ip_signal_def spec_ip_def Let_def)

lemma fst_raw_tally:
  "fst (raw_tally c m) = spec_velocity c + spec_deviation c + spec_failed c + spec_ip c m"
  by (simp add: raw_tally_def fst_velocity_signal fst_behavior_signal fst_abuse_signal
      fst_ip_signal)

lemma toFixed2_mono: "x \<le> y \<Longrightarrow> toFixed2 x \<le> toFixed2 y"
  unfolding toFixed2_def
  by (intro divide_right_mono of_int_le_iff [THEN iffD2] floor_mono) simp_all

lemma toFixed2_one: "toFixed2 1 = 1"
  by (simp add: toFixed2_def floor_eq_iff)

lemma toFixed2_min: "toFixed2 (min 1 x) = min 1 (toFixed2 x)"
proof (cases "x \<le> 1")
  case True
  then have "toFixed2 x \<le> 1"
    using toFixed2_mono [of x 1] by (simp add: toFixed2_one)
  with True show ?thesis by (simp add: min_def)
next
  case False
  then have "1 \<le> toFixed2 x"
    using toFixed2_mono [of 1 x] by (simp add: toFixed2_one)
  with False show ?thesis by (simp add: min_def toFixed2_one)
qed

lemma toFixed2_hundredths: "toFixed2 (of_int k / 100) = of_int k / 100"
proof -
  have "\<lfloor>(of_int k :: rat) + 1 / 2\<rfloor> = k"
    by (simp add: floor_eq_iff)
  then show ?thesis by (simp add: toFixed2_def)
qed

lemma toFixed2_idem: "toFixed2 (toFixed2 x) = toFixed2 x"
  using toFixed2_hundredths [of "\<lfloor>x * 100 + 1 / 2\<rfloor>"] by (simp add: toFixed2_def)

lemmas signal_defs =
  raw_tally_def velocity_signal_def behavior_signal_def abuse_signal_def ip_signal_def
  truthy_def or_default_def Math_round_def

lemmas eval_defs = evaluateRedemption_def decide_def toFixed2_def signal_defs floor_eq_iff

text \<open>
  C5. The decision is REJECT exactly when the score is above 0.7, CHALLENGE exactly when
  it lies in \<open>[0.3, 0.7]\<close>, and APPROVE exactly when it is below 0.3; a score of exactly
  0.3 and one of exactly 0.7 both give CHALLENGE.
\<close>

theorem decision_thresholds:
  "(decision (evaluateRedemption c m) = REJECT \<longleftrightarrow> score (evaluateRedemption c m) > 7 / 10)
   \<and> (decision (evaluateRedemption c m) = CHALLENGE
        \<longleftrightarrow> 3 / 10 \<le> score (evaluateRedemption c m) \<and> score (evaluateRedemption c m) \<le> 7 / 10)
   \<and> (decision (evaluateRedemption c m) = APPROVE \<longleftrightarrow> score (evaluateRedemption c m) < 3 / 10)
   \<and> (score (evaluateRedemption c m) = 3 / 10 \<longrightarrow> decision (evaluateRedemption c m) = CHALLENGE)
   \<and> (score (evaluateRedemption c m) = 7 / 10 \<longrightarrow> decision (evaluateRedemption c m) = CHALLENGE)"
  by (auto simp: evaluateRedemption_def Let_def decide_def)

text \<open>
  The two boundary scores are reached: two elevated signals of 0.15 sum to 0.3, high
  velocity with a significant deviation to 0.7, and both are challenged.
\<close>

theorem decision_thresholds_witness:
  "score (evaluateRedemption
      \<lparr>velocity10m = 2, avgAmount = 100, failedAttempts24h = 0, lastIp = None,
         currentAmount = 250\<rparr>
      \<lparr>ip = None, deviceId = None, location = None\<rparr>) = 3 / 10
   \<and> decision (evaluateRedemption
      \<lparr>velocity10m = 2, avgAmount = 100, failedAttempts24h = 0, lastIp = None,
         currentAmount = 250\<rparr>
      \<lparr>ip = None, deviceId = None, location = None\<rparr>) = CHALLENGE
   \<and> score (evaluateRedemption
      \<lparr>velocity10m = 4, avgAmount = 100, failedAttempts24h = 0, lastIp = None,
         currentAmount = 350\<rparr>
      \<lparr>ip = None, deviceId = None, location = None\<rparr>) = 7 / 10
   \<and> decision (evaluateRedemption
      \<lparr>velocity10m = 4, avgAmount = 100, failedAttempts24h = 0, lastIp = None,
         currentAmount = 350\<rparr>
      \<lparr>ip = None, deviceId = None, location = None\<rparr>) = CHALLENGE"
proof -
  let ?m = "\<lparr>ip = None, deviceId = None, location = None\<rparr>"
  let ?c1 = "\<lparr>velocity10m = 2, avgAmount = 100, failedAttempts24h = 0, lastIp = None,
               currentAmount = 250\<rparr>"
  let ?c2 = "\<lparr>velocity10m = 4, avgAmount = 100, failedAttempts24h = 0, lastIp = None,
               currentAmount = 350\<rparr>"
  have s1: "score (evaluateRedemption ?c1 ?m) = 3 / 10"
    by (simp add: eval_defs Let_def)
  have s2: "score (evaluateRedemption ?c2 ?m) = 7 / 10"
    by (simp add: eval_defs Let_def)
  from s1 s2 decision_thresholds [of ?c1 ?m] decision_thresholds [of ?c2 ?m]
  show ?thesis by blast
qed

text \<open>
  C6. The score is the sum of the four per-signal contributions of the scoring table,
  capped at 1.0 and rounded to two decimals. The context
  \<open>{velocity10m: 4, avgAmount: 100, failedAttempts24h: 6, lastIp: '1.1.1.1', currentAmount: 100}\<close>
  with metadata \<open>{ip: '2.2.2.2'}\<close> scores 1.0 and is rejected.
\<close>

theorem score_is_capped_sum:
  "score (evaluateRedemption c m) = spec_score c m
   \<and> toFixed2 (score (evaluateRedemption c m)) = score (evaluateRedemption c m)
   \<and> score (evaluateRedemption c m) \<le> 1
   \<and> score (evaluateRedemption
        \<lparr>velocity10m = 4, avgAmount = 100, failedAttempts24h = 6, lastIp = Some ''1.1.1.1'',
           currentAmount = 100\<rparr>
        \<lparr>ip = Some ''2.2.2.2'', deviceId = None, location = None\<rparr>) = 1
   \<and> decision (evaluateRedemption
        \<lparr>velocity10m = 4, avgAmount = 100, failedAttempts24h = 6, lastIp = Some ''1.1.1.1'',
           currentAmount = 100\<rparr>
        \<lparr>ip = Some ''2.2.2.2'', deviceId = None, location = None\<rparr>) = REJECT"
proof -
  have eq: "score (evaluateRedemption c m) = spec_score c m"
    by (simp add: evaluateRedemption_def Let_def spec_score_def toFixed2_min fst_raw_tally)
  have rounded: "toFixed2 (score (evaluateRedemption c m)) = score (evaluateRedemption c m)"
    unfolding eq spec_score_def by (rule toFixed2_idem)
  have capped: "score (evaluateRedemption c m) \<le> 1"
    by (simp add: evaluateRedemption_def Let_def)
  have "evaluateRedemption
        \<lparr>velocity10m = 4, avgAmount = 100, failedAttempts24h = 6, lastIp = Some ''1.1.1.1'',
           currentAmount = 100\<rparr>
        \<lparr>ip = Some ''2.2.2.2'', deviceId = None, location = None\<rparr>
      = \<lparr>score = 1, decision = REJECT,
           reasons = [HighVelocity, ExcessiveFailed, IpMismatch]\<rparr>"
    by (simp add: eval_defs Let_def)
  with eq rounded capped show ?thesis by simp
qed

text \<open>
  At a context where every signal fires in its lower bucket the table gives
  0.15 + 0.15 + 0.25 + 0.20 = 0.75, and the engine's score is that.
\<close>

theorem score_is_capped_sum_witness:
  "score (evaluateRedemption
      \<lparr>velocity10m = 2, avgAmount = 100, failedAttempts24h = 3, lastIp = Some ''1.1.1.1'',
         currentAmount = 250\<rparr>
      \<lparr>ip = Some ''2.2.2.2'', deviceId = None, location = None\<rparr>) = 75 / 100"
proof -
  let ?c = "\<lparr>velocity10m = 2, avgAmount = 100, failedAttempts24h = 3,
              lastIp = Some ''1.1.1.1'', currentAmount = 250\<rparr>"
  let ?m = "\<lparr>ip = Some ''2.2.2.2'', deviceId = None, location = None\<rparr>"
  have "spec_score ?c ?m = 75 / 100"
    by (simp add: spec_score_def spec_velocity_def spec_deviation_def spec_failed_def
        spec_ip_def truthy_def or_default_def toFixed2_def floor_eq_iff)
  with score_is_capped_sum [of ?c ?m] show ?thesis by simp
qed

text \<open>
  C10, as stated: with \<open>metadata.ip\<close> absent, every context whose \<open>lastIp\<close> is non-null and
  not '127.0.0.1' gets the IP-mismatch contribution. It fails for the empty string, which
  is non-null and falsy: no contribution and no reason.
\<close>

theorem ip_default_counterexample:
  "ip \<lparr>ip = None, deviceId = None, location = None\<rparr> = None
   \<and> lastIp \<lparr>velocity10m = 0, avgAmount = 0, failedAttempts24h = 0, lastIp = Some '''',
              currentAmount = 100\<rparr> \<noteq> None
   \<and> lastIp \<lparr>velocity10m = 0, avgAmount = 0, failedAttempts24h = 0, lastIp = Some '''',
              currentAmount = 100\<rparr> \<noteq> Some ''127.0.0.1''
   \<and> evaluateRedemption
        \<lparr>velocity10m = 0, avgAmount = 0, failedAttempts24h = 0, lastIp = Some '''',
           currentAmount = 100\<rparr>
        \<lparr>ip = None, deviceId = None, location = None\<rparr>
      = \<lparr>score = 0, decision = APPROVE, reasons = []\<rparr>"
  by (simp add: eval_defs Let_def)

text \<open>
  C10, amended: with \<open>metadata.ip\<close> absent the engine evaluates as if the current IP were
  '127.0.0.1'; so for every context whose \<open>lastIp\<close> is a non-empty string other than
  '127.0.0.1', the IP signal adds 0.2 to the sum and appends its reason.
\<close>

theorem ip_default_mismatch:
  assumes "ip m = None"
  shows "evaluateRedemption c m = evaluateRedemption c (m\<lparr>ip := Some ''127.0.0.1''\<rparr>)
     \<and> (\<forall>a. lastIp c = Some a \<and> a \<noteq> [] \<and> a \<noteq> ''127.0.0.1'' \<longrightarrow>
           ip_signal c m t = (fst t + 2 / 10, snd t @ [IpMismatch])
           \<and> fst (raw_tally c m) = spec_velocity c + spec_deviation c + spec_failed c + 2 / 10
           \<and> IpMismatch \<in> set (reasons (evaluateRedemption c m)))"
proof (intro conjI allI impI)
  show "evaluateRedemption c m = evaluateRedemption c (m\<lparr>ip := Some ''127.0.0.1''\<rparr>)"
    using assms
    by (simp add: evaluateRedemption_def raw_tally_def ip_signal_def or_default_def)
next
  fix a
  assume a: "lastIp c = Some a \<and> a \<noteq> [] \<and> a \<noteq> ''127.0.0.1''"
  with assms have sig: "\<And>u. ip_signal c m u = (fst u + 2 / 10, snd u @ [IpMismatch])"
    by (simp add: ip_signal_def or_default_def truthy_def)
  show "ip_signal c m t = (fst t + 2 / 10, snd t @ [IpMismatch])"
    by (rule sig)
  from a assms have "spec_ip c m = 2 / 10"
    by (simp add: spec_ip_def or_default_def truthy_def)
  then show "fst (raw_tally c m)
      = spec_velocity c + spec_deviation c + spec_failed c + 2 / 10"
    by (simp add: fst_raw_tally)
  show "IpMismatch \<in> set (reasons (evaluateRedemption c m))"
    by (simp add: evaluateRedemption_def Let_def raw_tally_def sig)
qed

text \<open>
  With no IP in the metadata and a last success from 10.0.0.1, the mismatch is the one
  reason and the sum is 0.2.
\<close>

theorem ip_default_mismatch_witness:
  "ip \<lparr>ip = None, deviceId = None, location = None\<rparr> = None
   \<and> IpMismatch \<in> set (reasons (evaluateRedemption
        \<lparr>velocity10m = 0, avgAmount = 0, failedAttempts24h = 0, lastIp = Some ''10.0.0.1'',
           currentAmount = 100\<rparr>
        \<lparr>ip = None, deviceId = None, location = None\<rparr>))
   \<and> fst (raw_tally
        \<lparr>velocity10m = 0, avgAmount = 0, failedAttempts24h = 0, lastIp = Some ''10.0.0.1'',
           currentAmount = 100\<rparr>
        \<lparr>ip = None, deviceId = None, location = None\<rparr>) = 2 / 10"
proof -
  let ?c = "\<lparr>velocity10m = 0, avgAmount = 0, failedAttempts24h = 0,
              lastIp = Some ''10.0.0.1'', currentAmount = 100\<rparr>"
  let ?m = "\<lparr>ip = None, deviceId = None, location = None\<rparr>"
  have h: "ip ?m = None" by simp
  have sp: "spec_velocity ?c + spec_deviation ?c + spec_failed ?c + 2 / 10 = 2 / 10"
    by (simp add: spec_velocity_def spec_deviation_def spec_failed_def)
  have pre: "lastIp ?c = Some ''10.0.0.1'' \<and> ''10.0.0.1'' \<noteq> [] \<and> ''10.0.0.1'' \<noteq> ''127.0.0.1''"
    by simp
  from ip_default_mismatch [OF h, of ?c "(0, [])"] pre
  have "fst (raw_tally ?c ?m)
          = spec_velocity ?c + spec_deviation ?c + spec_failed ?c + 2 / 10
        \<and> IpMismatch \<in> set (reasons (evaluateRedemption ?c ?m))"
    by blast
  with sp h show ?thesis
    by (simp only: simp_thms)
qed

section \<open>Mint: properties\<close>

lemma advance_advance: "advance a (advance b e) = advance (a + b) e"
  by (simp add: advance_def fun_eq_iff add.assoc)

lemma advance_zero: "advance 0 e = e"
  by (simp add: advance_def)

lemma generateRandomToken_loop_eq:
  "generateRandomToken_loop n acc e
     = (acc @ map (\<lambda>i. charset ! (e i mod length charset)) [0..<n], advance n e)"
proof (induction n arbitrary: acc e)
  case 0
  show ?case by (simp add: advance_def)
next
  case (Suc n)
  have "map (\<lambda>i. charset ! (e i mod length charset)) [0..<Suc n]
      = charset ! (e 0 mod length charset)
          # map (\<lambda>i. charset ! (advance 1 e i mod length charset)) [0..<n]"
    by (simp add: upt_conv_Cons advance_def map_Suc_upt [symmetric] del: upt_Suc)
  then show ?case
    by (simp add: Suc.IH randomInt_def advance_advance del: upt_Suc)
qed

lemma generateRandomToken_eq:
  "generateRandomToken n e
     = (map (\<lambda>i. charset ! (e i mod length charset)) [0..<n], advance n e)"
  by (simp add: generateRandomToken_def generateRandomToken_loop_eq)

lemma draw_token_eq:
  "draw_token L cfg now a amt e =
     (let core = fst (generateRandomToken 8 e);
          pfx = fst (generateRandomToken 4 (advance 8 e));
          slt = fst (randomBytes 16 (advance 12 e));
          pt = pfx @ ''-'' @ core
      in (pt,
          \<lparr>tok_id = UUID 0, account_id = a, amount = amt, token_hash = hashToken L cfg pt slt,
             salt = slt, prefix = pfx, status = ACTIVE,
             expires_at = now + expirySeconds cfg * 1000, used_at = None\<rparr>,
          advance 28 e))"
  by (simp add: draw_token_def generateRandomToken_eq randomBytes_def advance_advance Let_def)

lemma snd_snd_draw_token: "snd (snd (draw_token L cfg now a amt e)) = advance 28 e"
  by (simp add: draw_token_eq Let_def)

text \<open>What a successful k-th attempt returns for the stored row \<open>r\<close>.\<close>

lemma mint_attempt_eq:
  "mint_attempt L cfg w a amt k st =
     (let row = fst (snd (draw_token L cfg (at_now w) a amt (ms_entropy st)));
          pt = fst (draw_token L cfg (at_now w) a amt (ms_entropy st));
          st1 = st\<lparr>ms_entropy := advance 28 (ms_entropy st),
                   ms_inserts := ms_inserts st @ [row]\<rparr>
      in case insert_token (at_insert w) (ms_db st) row of
           Inr (r, d') \<Rightarrow>
             (Return \<lparr>m_id = tok_id r, m_token = pt, m_amount = amt,
                       m_expiresAt = expires_at row\<rparr>, st1\<lparr>ms_db := d'\<rparr>)
         | Inl err \<Rightarrow>
             if err = DbError ''23505'' then
               (if k + 1 \<ge> 3 then (Throw MaxRetriesExceeded, st1) else (Continue, st1))
             else (Throw err, st1))"
proof -
  obtain pt row e' where d: "draw_token L cfg (at_now w) a amt (ms_entropy st) = (pt, row, e')"
    by (cases "draw_token L cfg (at_now w) a amt (ms_entropy st)") auto
  with snd_snd_draw_token [of L cfg "at_now w" a amt "ms_entropy st"]
  have e': "e' = advance 28 (ms_entropy st)" by simp
  have code: "\<And>err. (err_code err = Some ''23505'') = (err = DbError ''23505'')"
    by (simp add: err_code_def split: js_error.split)
  show ?thesis
    by (simp add: mint_attempt_def d e' Let_def MAX_RETRIES_def code
        split: sum.split prod.split)
qed

lemma after_collisions_Suc:
  "(after_collisions L cfg W e d a amt k)
     \<lparr>ms_entropy := advance 28 (ms_entropy (after_collisions L cfg W e d a amt k)),
       ms_inserts := ms_inserts (after_collisions L cfg W e d a amt k)
                       @ [attempt_row L cfg W e a amt k]\<rparr>
   = after_collisions L cfg W e d a amt (Suc k)"
  by (simp add: after_collisions_def advance_advance)

lemma mint_loop_step:
  assumes "k < 3"
  shows "mint_loop L cfg W a amt k (after_collisions L cfg W e d a amt k) =
     (case attempt_insert L cfg W e d a amt k of
        Inr (r, d') \<Rightarrow>
          (Inr (Some \<lparr>m_id = tok_id r, m_token = attempt_plaintext L cfg W e a amt k,
                       m_amount = amt,
                       m_expiresAt = expires_at (attempt_row L cfg W e a amt k)\<rparr>),
           (after_collisions L cfg W e d a amt (Suc k))\<lparr>ms_db := d'\<rparr>)
      | Inl err \<Rightarrow>
          if err = DbError ''23505'' then
            (if k = 2 then (Inl MaxRetriesExceeded, after_collisions L cfg W e d a amt (Suc k))
             else mint_loop L cfg W a amt (Suc k) (after_collisions L cfg W e d a amt (Suc k)))
          else (Inl err, after_collisions L cfg W e d a amt (Suc k)))"
proof -
  let ?S = "after_collisions L cfg W e d a amt"
  have ent: "ms_entropy (?S k) = advance (28 * k) e" and dbk: "ms_db (?S k) = d"
    by (simp_all add: after_collisions_def)
  have row: "fst (snd (draw_token L cfg (at_now (W k)) a amt (ms_entropy (?S k))))
      = attempt_row L cfg W e a amt k"
    and pt: "fst (draw_token L cfg (at_now (W k)) a amt (ms_entropy (?S k)))
      = attempt_plaintext L cfg W e a amt k"
    by (simp_all add: ent attempt_row_def attempt_plaintext_def)
  have att: "mint_attempt L cfg (W k) a amt k (?S k) =
     (case attempt_insert L cfg W e d a amt k of
        Inr (r, d') \<Rightarrow>
          (Return \<lparr>m_id = tok_id r, m_token = attempt_plaintext L cfg W e a amt k,
                    m_amount = amt,
                    m_expiresAt = expires_at (attempt_row L cfg W e a amt k)\<rparr>,
           (?S (Suc k))\<lparr>ms_db := d'\<rparr>)
      | Inl err \<Rightarrow>
          if err = DbError ''23505'' then
            (if k + 1 \<ge> 3 then (Throw MaxRetriesExceeded, ?S (Suc k))
             else (Continue, ?S (Suc k)))
          else (Throw err, ?S (Suc k)))"
    unfolding mint_attempt_eq [of L cfg "W k" a amt k "?S k"] Let_def row pt
      after_collisions_Suc attempt_insert_def dbk
    by (rule refl)
  have k3: "k + 1 \<ge> 3 \<longleftrightarrow> k = 2" using assms by arith
  from assms show ?thesis
    by (subst mint_loop.simps)
      (simp add: att k3 MAX_RETRIES_def split: sum.split prod.split)
qed

lemma after_collisions_sel:
  "ms_db (after_collisions L cfg W e d a amt n) = d"
  "ms_entropy (after_collisions L cfg W e d a amt n) = advance (28 * n) e"
  "ms_inserts (after_collisions L cfg W e d a amt n) = map (attempt_row L cfg W e a amt) [0..<n]"
  by (simp_all add: after_collisions_def)

lemma mint_loop_ends_here:
  assumes "k < 3" and "\<forall>j<k. collides L cfg W e d a amt j"
    and "mint_loop L cfg W a amt k (after_collisions L cfg W e d a amt k) = (res, st)"
    and "k = 2 \<or> \<not> collides L cfg W e d a amt k"
  shows "ended_at L cfg W e d a amt k res st"
proof -
  from assms(3) have eq:
    "(case attempt_insert L cfg W e d a amt k of
        Inr (r, d') \<Rightarrow>
          (Inr (Some \<lparr>m_id = tok_id r, m_token = attempt_plaintext L cfg W e a amt k,
                       m_amount = amt,
                       m_expiresAt = expires_at (attempt_row L cfg W e a amt k)\<rparr>),
           (after_collisions L cfg W e d a amt (Suc k))\<lparr>ms_db := d'\<rparr>)
      | Inl err \<Rightarrow>
          if err = DbError ''23505'' then
            (if k = 2 then (Inl MaxRetriesExceeded, after_collisions L cfg W e d a amt (Suc k))
             else mint_loop L cfg W a amt (Suc k) (after_collisions L cfg W e d a amt (Suc k)))
          else (Inl err, after_collisions L cfg W e d a amt (Suc k))) = (res, st)"
    unfolding mint_loop_step [OF assms(1)] .
  show ?thesis
  proof (cases "attempt_insert L cfg W e d a amt k")
    case (Inl err)
    show ?thesis
    proof (cases "err = DbError ''23505''")
      case True
      with Inl assms(4) have k: "k = 2" by (simp add: collides_def)
      from eq have "res = Inl MaxRetriesExceeded"
        and "st = after_collisions L cfg W e d a amt (Suc k)"
        unfolding Inl by (simp_all add: True k)
      with assms(2) Inl True k show ?thesis
        by (simp add: ended_at_def after_collisions_sel del: upt_Suc)
    next
      case False
      from eq have "res = Inl err"
        and "st = after_collisions L cfg W e d a amt (Suc k)"
        unfolding Inl by (simp_all add: False)
      with assms(2) Inl False show ?thesis
        by (simp add: ended_at_def after_collisions_sel del: upt_Suc)
    qed
  next
    case (Inr p)
    obtain r d' where p: "p = (r, d')" by (cases p)
    from eq
    have "res = Inr (Some \<lparr>m_id = tok_id r, m_token = attempt_plaintext L cfg W e a amt k,
                           m_amount = amt,
                           m_expiresAt = expires_at (attempt_row L cfg W e a amt k)\<rparr>)"
      and "st = (after_collisions L cfg W e d a amt (Suc k))\<lparr>ms_db := d'\<rparr>"
      unfolding Inr p by simp_all
    with assms(2) Inr p show ?thesis
      by (simp add: ended_at_def after_collisions_sel del: upt_Suc)
  qed
qed

lemma mint_loop_ended:
  assumes "k < 3" and "\<forall>j<k. collides L cfg W e d a amt j"
    and "mint_loop L cfg W a amt k (after_collisions L cfg W e d a amt k) = (res, st)"
  shows "\<exists>n. k \<le> n \<and> n < 3 \<and> ended_at L cfg W e d a amt n res st"
  using assms
proof (induction "2 - k" arbitrary: k)
  case 0
  then have k: "k = 2" by arith
  with "0.prems" have "ended_at L cfg W e d a amt k res st"
    by (intro mint_loop_ends_here) simp_all
  then show ?case using k by auto
next
  case (Suc x)
  then have k: "k < 2" by arith
  show ?case
  proof (cases "collides L cfg W e d a amt k")
    case True
    then have ins: "attempt_insert L cfg W e d a amt k = Inl (DbError ''23505'')"
      by (simp add: collides_def)
    from Suc.prems(3) k
    have run: "mint_loop L cfg W a amt (Suc k) (after_collisions L cfg W e d a amt (Suc k))
        = (res, st)"
      by (simp add: mint_loop_step [OF Suc.prems(1)] ins)
    have pre: "\<forall>j<Suc k. collides L cfg W e d a amt j"
      using Suc.prems(2) True by (auto simp: less_Suc_eq)
    from Suc.hyps(2) k have x: "x = 2 - Suc k" and sk: "Suc k < 3" by arith+
    from Suc.hyps(1) [OF x sk pre run]
    obtain n where "Suc k \<le> n" "n < 3" "ended_at L cfg W e d a amt n res st"
      by auto
    then show ?thesis by (intro exI [of _ n]) auto
  next
    case False
    with Suc.prems have "ended_at L cfg W e d a amt k res st"
      by (intro mint_loop_ends_here) simp_all
    with Suc.prems(1) show ?thesis by auto
  qed
qed

lemma mint_ended:
  assumes "validateGenerationParams L a amt"
    and "generateWithdrawalToken L cfg W e d a amt = (res, st)"
  shows "\<exists>n<3. ended_at L cfg W e d a amt n res st"
proof -
  have "after_collisions L cfg W e d a amt 0 = \<lparr>ms_db = d, ms_entropy = e, ms_inserts = []\<rparr>"
    by (simp add: after_collisions_def advance_zero)
  with assms have "mint_loop L cfg W a amt 0 (after_collisions L cfg W e d a amt 0) = (res, st)"
    by (simp add: generateWithdrawalToken_def)
  from mint_loop_ended [OF _ _ this] show ?thesis by auto
qed

lemma dash_not_in_charset: "CHR ''-'' \<notin> set charset"
  by (simp add: charset_def)

lemma length_charset: "length charset = 36"
  by (simp add: charset_def)

lemma token_chars_in_charset:
  "set (fst (generateRandomToken n e)) \<subseteq> set charset"
proof -
  have "\<And>i. charset ! (e i mod length charset) \<in> set charset"
    by (rule nth_mem) (simp add: length_charset)
  then show ?thesis
    by (auto simp: generateRandomToken_eq)
qed

lemma length_generateRandomToken: "length (fst (generateRandomToken n e)) = n"
  by (simp add: generateRandomToken_eq)

lemma attempt_row_fields:
  "token_hash (attempt_row L cfg W e a amt k)
     = hashToken L cfg (attempt_plaintext L cfg W e a amt k) (salt (attempt_row L cfg W e a amt k))"
  "length (salt (attempt_row L cfg W e a amt k)) = 16"
  "status (attempt_row L cfg W e a amt k) = ACTIVE"
  "expires_at (attempt_row L cfg W e a amt k) = at_now (W k) + expirySeconds cfg * 1000"
  "account_id (attempt_row L cfg W e a amt k) = a"
  "amount (attempt_row L cfg W e a amt k) = amt"
  by (simp_all add: attempt_row_def attempt_plaintext_def draw_token_eq Let_def randomBytes_def)

lemma attempt_plaintext_shape:
  "\<exists>core. attempt_plaintext L cfg W e a amt k = prefix (attempt_row L cfg W e a amt k) @ ''-'' @ core
     \<and> length core = 8 \<and> CHR ''-'' \<notin> set core
     \<and> length (prefix (attempt_row L cfg W e a amt k)) = 4
     \<and> CHR ''-'' \<notin> set (prefix (attempt_row L cfg W e a amt k))"
proof -
  let ?core = "fst (generateRandomToken 8 (advance (28 * k) e))"
  let ?pfx = "fst (generateRandomToken 4 (advance 8 (advance (28 * k) e)))"
  have "CHR ''-'' \<notin> set ?core" "CHR ''-'' \<notin> set ?pfx"
    using token_chars_in_charset dash_not_in_charset by blast+
  moreover have "length ?core = 8" "length ?pfx = 4"
    by (rule length_generateRandomToken)+
  moreover have "attempt_plaintext L cfg W e a amt k = ?pfx @ ''-'' @ ?core"
    "prefix (attempt_row L cfg W e a amt k) = ?pfx"
    by (simp_all add: attempt_row_def attempt_plaintext_def draw_token_eq Let_def)
  ultimately show ?thesis by auto
qed

lemma hashToken_eq:
  "hashToken L cfg plaintext slt = sha256 L (utf8 (pepper cfg) @ utf8 plaintext @ slt)"
  by (simp add: hashToken_def hash_digest_def hash_update_def createHash_def)

text \<open>A mint that returns a token ended in an attempt whose insert went through.\<close>

lemma mint_success:
  assumes "generateWithdrawalToken L cfg W e d a amt = (Inr (Some m), st)"
  shows "\<exists>n<3. (\<forall>j<n. collides L cfg W e d a amt j)
      \<and> (\<forall>t\<in>set (tokens d). token_hash t \<noteq> token_hash (attempt_row L cfg W e a amt n))
      \<and> m = \<lparr>m_id = gen_uuid (at_insert (W n)),
              m_token = attempt_plaintext L cfg W e a amt n, m_amount = amt,
              m_expiresAt = expires_at (attempt_row L cfg W e a amt n)\<rparr>
      \<and> ms_db st = d\<lparr>tokens := tokens d @
            [(attempt_row L cfg W e a amt n)\<lparr>tok_id := gen_uuid (at_insert (W n)),
                                               used_at := None\<rparr>]\<rparr>
      \<and> length (ms_inserts st) = Suc n"
proof -
  from assms have valid: "validateGenerationParams L a amt"
    by (auto simp: generateWithdrawalToken_def Let_def split: if_splits)
  from mint_ended [OF valid assms]
  obtain n where n: "n < 3" and en: "ended_at L cfg W e d a amt n (Inr (Some m)) st"
    by auto
  from en obtain r d' where ins: "attempt_insert L cfg W e d a amt n = Inr (r, d')"
    by (cases "attempt_insert L cfg W e d a amt n")
      (auto simp: ended_at_def split: if_splits)
  from ins have nohit:
    "\<forall>t\<in>set (tokens d). token_hash t \<noteq> token_hash (attempt_row L cfg W e a amt n)"
    and r: "r = (attempt_row L cfg W e a amt n)\<lparr>tok_id := gen_uuid (at_insert (W n)),
                                                  used_at := None\<rparr>"
    and d': "d' = d\<lparr>tokens := tokens d @ [r]\<rparr>"
    by (auto simp: attempt_insert_def insert_token_def Let_def
        split: option.splits if_splits)
  from en ins r d' have "m = \<lparr>m_id = gen_uuid (at_insert (W n)),
              m_token = attempt_plaintext L cfg W e a amt n, m_amount = amt,
              m_expiresAt = expires_at (attempt_row L cfg W e a amt n)\<rparr>"
    and "ms_db st = d\<lparr>tokens := tokens d @ [r]\<rparr>"
    and "length (ms_inserts st) = Suc n"
    and "\<forall>j<n. collides L cfg W e d a amt j"
    by (simp_all add: ended_at_def del: upt_Suc)
  with n nohit r show ?thesis by blast
qed

text \<open>
  C7. A mint hands at most 3 rows to \<open>insert\<close>, each built from draws of its own (the
  k-th from the next 28 values of the CSPRNG); an attempt is followed by another one
  only when its insert failed with the unique violation 23505; when all three collide
  the mint fails with the error 'Failed to generate unique token after maximum retries';
  any other database error ends the mint at once and is the error thrown.
\<close>

theorem mint_retries_bounded:
  assumes "validateGenerationParams L accountId amt"
    and "generateWithdrawalToken L cfg W e d accountId amt = (res, st)"
  shows "length (ms_inserts st) \<le> 3
     \<and> (\<forall>k. k < length (ms_inserts st) \<longrightarrow>
           ms_inserts st ! k = attempt_row L cfg W e accountId amt k)
     \<and> (\<forall>k. Suc k < length (ms_inserts st) \<longrightarrow> collides L cfg W e d accountId amt k)
     \<and> (collides L cfg W e d accountId amt 0 \<and> collides L cfg W e d accountId amt 1
          \<and> collides L cfg W e d accountId amt 2 \<longrightarrow>
           res = Inl MaxRetriesExceeded \<and> length (ms_inserts st) = 3 \<and> ms_db st = d)
     \<and> (\<forall>k code. k < 3 \<and> (\<forall>j. j < k \<longrightarrow> collides L cfg W e d accountId amt j)
           \<and> attempt_insert L cfg W e d accountId amt k = Inl (DbError code)
           \<and> code \<noteq> ''23505'' \<longrightarrow>
           res = Inl (DbError code) \<and> length (ms_inserts st) = Suc k \<and> ms_db st = d)"
proof -
  let ?col = "collides L cfg W e d accountId amt"
  let ?ins = "attempt_insert L cfg W e d accountId amt"
  from mint_ended [OF assms]
  obtain n where n: "n < 3" and en: "ended_at L cfg W e d accountId amt n res st"
    by auto
  from en have ins: "ms_inserts st = map (attempt_row L cfg W e accountId amt) [0..<Suc n]"
    and before: "\<forall>j<n. ?col j"
    by (simp_all add: ended_at_def del: upt_Suc)
  have len: "length (ms_inserts st) = Suc n" by (simp add: ins)
  have p1: "length (ms_inserts st) \<le> 3" using n len by simp
  have p2: "\<forall>k. k < length (ms_inserts st) \<longrightarrow>
           ms_inserts st ! k = attempt_row L cfg W e accountId amt k"
    unfolding ins by (auto simp del: upt_Suc)
  have p3: "\<forall>k. Suc k < length (ms_inserts st) \<longrightarrow> ?col k"
    using before len by simp
  have last: "?ins n = Inl (DbError ''23505'') \<Longrightarrow>
      n = 2 \<and> res = Inl MaxRetriesExceeded \<and> ms_db st = d"
    using en by (simp add: ended_at_def)
  have other: "\<And>code. ?ins n = Inl (DbError code) \<Longrightarrow> code \<noteq> ''23505'' \<Longrightarrow>
      res = Inl (DbError code) \<and> ms_db st = d"
    using en by (simp add: ended_at_def)
  have p4: "?col 0 \<and> ?col 1 \<and> ?col 2 \<longrightarrow>
           res = Inl MaxRetriesExceeded \<and> length (ms_inserts st) = 3 \<and> ms_db st = d"
  proof
    assume c: "?col 0 \<and> ?col 1 \<and> ?col 2"
    from n have "n = 0 \<or> n = 1 \<or> n = 2" by arith
    with c have "?col n" by auto
    then have "?ins n = Inl (DbError ''23505'')" by (simp add: collides_def)
    from last [OF this] len
    show "res = Inl MaxRetriesExceeded \<and> length (ms_inserts st) = 3 \<and> ms_db st = d"
      by simp
  qed
  have p5: "\<forall>k code. k < 3 \<and> (\<forall>j. j < k \<longrightarrow> ?col j)
           \<and> ?ins k = Inl (DbError code) \<and> code \<noteq> ''23505'' \<longrightarrow>
           res = Inl (DbError code) \<and> length (ms_inserts st) = Suc k \<and> ms_db st = d"
  proof (intro allI impI)
    fix k code
    assume h: "k < 3 \<and> (\<forall>j. j < k \<longrightarrow> ?col j)
           \<and> ?ins k = Inl (DbError code) \<and> code \<noteq> ''23505''"
    then have nk: "\<not> ?col k" by (simp add: collides_def)
    have "k = n"
    proof (rule ccontr)
      assume "k \<noteq> n"
      then consider "k < n" | "n < k" by arith
      then show False
      proof cases
        case 1
        with before nk show False by simp
      next
        case 2
        with h have "?col n" by simp
        then have "?ins n = Inl (DbError ''23505'')" by (simp add: collides_def)
        from last [OF this] 2 h show False by simp
      qed
    qed
    with h other [of code] len
    show "res = Inl (DbError code) \<and> length (ms_inserts st) = Suc k \<and> ms_db st = d"
      by simp
  qed
  from p1 p2 p3 p4 p5 show ?thesis by blast
qed

lemmas fixture_defs =
  collide_lib_def len_lib_def cfg0_def acct0_def world_ok_def world_down_def zeros_def
  db_empty_def row_one_def db_one_def md0_def

text \<open>
  With a hash that maps everything to 0 and a stored row of hash 0, all three attempts
  collide and the mint gives up after the third; with the database down (SQLSTATE 08006)
  the first attempt's error is thrown and nothing is retried.
\<close>

theorem mint_retries_bounded_witness:
  "validateGenerationParams collide_lib acct0 100
   \<and> collides collide_lib cfg0 world_ok zeros db_one acct0 100 0
   \<and> collides collide_lib cfg0 world_ok zeros db_one acct0 100 1
   \<and> collides collide_lib cfg0 world_ok zeros db_one acct0 100 2
   \<and> fst (generateWithdrawalToken collide_lib cfg0 world_ok zeros db_one acct0 100)
       = Inl MaxRetriesExceeded
   \<and> length (ms_inserts (snd (generateWithdrawalToken collide_lib cfg0 world_ok zeros db_one
        acct0 100))) = 3
   \<and> attempt_insert len_lib cfg0 world_down zeros db_empty acct0 100 0 = Inl (DbError ''08006'')
   \<and> fst (generateWithdrawalToken len_lib cfg0 world_down zeros db_empty acct0 100)
       = Inl (DbError ''08006'')
   \<and> length (ms_inserts (snd (generateWithdrawalToken len_lib cfg0 world_down zeros db_empty
        acct0 100))) = 1"
proof -
  let ?g = "generateWithdrawalToken collide_lib cfg0 world_ok zeros db_one acct0 100"
  let ?h = "generateWithdrawalToken len_lib cfg0 world_down zeros db_empty acct0 100"
  have v: "validateGenerationParams collide_lib acct0 100"
    by (simp add: validateGenerationParams_def collide_lib_def)
  have c: "\<And>k. collides collide_lib cfg0 world_ok zeros db_one acct0 100 k"
    by (simp add: collides_def attempt_insert_def insert_token_def attempt_row_def
        draw_token_eq Let_def hashToken_def hash_digest_def fixture_defs)
  have run: "?g = (fst ?g, snd ?g)" by simp
  from mint_retries_bounded [OF v run] c
  have g: "fst ?g = Inl MaxRetriesExceeded \<and> length (ms_inserts (snd ?g)) = 3"
    by blast
  have v': "validateGenerationParams len_lib acct0 100"
    by (simp add: validateGenerationParams_def len_lib_def)
  have i: "attempt_insert len_lib cfg0 world_down zeros db_empty acct0 100 0
      = Inl (DbError ''08006'')"
    by (simp add: attempt_insert_def insert_token_def world_down_def)
  have run': "?h = (fst ?h, snd ?h)" by simp
  have "(0::nat) < 3 \<and> (\<forall>j. j < (0::nat) \<longrightarrow> collides len_lib cfg0 world_down zeros db_empty acct0 100 j)
      \<and> attempt_insert len_lib cfg0 world_down zeros db_empty acct0 100 0
         = Inl (DbError ''08006'') \<and> ''08006'' \<noteq> ''23505''"
    using i by simp
  with mint_retries_bounded [OF v' run']
  have h: "fst ?h = Inl (DbError ''08006'') \<and> length (ms_inserts (snd ?h)) = Suc 0"
    by blast
  from v c g i h show ?thesis by simp
qed

text \<open>
  C9. The hash of a plaintext token under a salt is SHA-256 of pepper, plaintext and salt
  concatenated in that order, and the row a mint stores holds the hash of the plaintext
  that the mint returns under the 16-byte salt stored beside it.
\<close>

theorem stored_hash_is_sha256:
  "hashToken L cfg plaintext slt = sha256 L (utf8 (pepper cfg) @ utf8 plaintext @ slt)
   \<and> (generateWithdrawalToken L cfg W e d accountId amt = (Inr (Some m), st) \<longrightarrow>
        (\<exists>row. tokens (ms_db st) = tokens d @ [row] \<and> tok_id row = m_id m
           \<and> length (salt row) = 16
           \<and> token_hash row = sha256 L (utf8 (pepper cfg) @ utf8 (m_token m) @ salt row)))"
proof (intro conjI impI)
  show "hashToken L cfg plaintext slt = sha256 L (utf8 (pepper cfg) @ utf8 plaintext @ slt)"
    by (rule hashToken_eq)
next
  assume run: "generateWithdrawalToken L cfg W e d accountId amt = (Inr (Some m), st)"
  from mint_success [OF run] obtain n where
    m: "m = \<lparr>m_id = gen_uuid (at_insert (W n)),
              m_token = attempt_plaintext L cfg W e accountId amt n, m_amount = amt,
              m_expiresAt = expires_at (attempt_row L cfg W e accountId amt n)\<rparr>"
    and db: "ms_db st = d\<lparr>tokens := tokens d @
            [(attempt_row L cfg W e accountId amt n)\<lparr>tok_id := gen_uuid (at_insert (W n)),
                                               used_at := None\<rparr>]\<rparr>"
    by blast
  let ?row = "(attempt_row L cfg W e accountId amt n)\<lparr>tok_id := gen_uuid (at_insert (W n)),
                                               used_at := None\<rparr>"
  have "tokens (ms_db st) = tokens d @ [?row]" by (simp add: db)
  moreover have "tok_id ?row = m_id m" by (simp add: m)
  moreover have "length (salt ?row) = 16" by (simp add: attempt_row_fields)
  moreover have "token_hash ?row = sha256 L (utf8 (pepper cfg) @ utf8 (m_token m) @ salt ?row)"
    by (simp add: m attempt_row_fields(1) hashToken_eq)
  ultimately show "\<exists>row. tokens (ms_db st) = tokens d @ [row] \<and> tok_id row = m_id m
           \<and> length (salt row) = 16
           \<and> token_hash row = sha256 L (utf8 (pepper cfg) @ utf8 (m_token m) @ salt row)"
    by blast
qed

lemma mint_example:
  "fst (generateWithdrawalToken len_lib cfg0 world_ok zeros db_empty acct0 100)
     = Inr (Some \<lparr>m_id = UUID 7, m_token = ''AAAA-AAAAAAAA'', m_amount = 100,
                   m_expiresAt = 301000\<rparr>)"
  by (simp add: generateWithdrawalToken_def validateGenerationParams_def
      mint_loop.simps [of _ _ _ _ _ 0] MAX_RETRIES_def mint_attempt_eq draw_token_eq
      generateRandomToken_eq insert_token_def Let_def charset_def fixture_defs upt_rec
      advance_def)

text \<open>
  A mint into the empty store with the CSPRNG giving zeros returns AAAA-AAAAAAAA, and the
  one row stored holds the hash of pepper, that plaintext and the row's salt.
\<close>

theorem stored_hash_is_sha256_witness:
  "fst (generateWithdrawalToken len_lib cfg0 world_ok zeros db_empty acct0 100)
     = Inr (Some \<lparr>m_id = UUID 7, m_token = ''AAAA-AAAAAAAA'', m_amount = 100,
                   m_expiresAt = 301000\<rparr>)
   \<and> (\<exists>row. tokens (ms_db (snd (generateWithdrawalToken len_lib cfg0 world_ok zeros db_empty
                 acct0 100))) = tokens db_empty @ [row]
         \<and> tok_id row = UUID 7 \<and> length (salt row) = 16
         \<and> token_hash row
             = sha256 len_lib (utf8 ''pepper'' @ utf8 ''AAAA-AAAAAAAA'' @ salt row))"
proof -
  let ?g = "generateWithdrawalToken len_lib cfg0 world_ok zeros db_empty acct0 100"
  let ?m = "\<lparr>m_id = UUID 7, m_token = ''AAAA-AAAAAAAA'', m_amount = 100,
             m_expiresAt = 301000\<rparr>"
  have run: "?g = (Inr (Some ?m), snd ?g)"
    using mint_example by (simp add: prod_eq_iff)
  from stored_hash_is_sha256 [of len_lib cfg0 "[]" "[]" world_ok zeros db_empty acct0 100
      ?m "snd ?g"] run
  have "\<exists>row. tokens (ms_db (snd ?g)) = tokens db_empty @ [row] \<and> tok_id row = m_id ?m
           \<and> length (salt row) = 16
           \<and> token_hash row
               = sha256 len_lib (utf8 (pepper cfg0) @ utf8 (m_token ?m) @ salt row)"
    by blast
  then show ?thesis
    using mint_example by (simp add: cfg0_def)
qed

section \<open>Redeem: properties\<close>

lemma split_on_no_sep: "d \<notin> set s \<Longrightarrow> split_on d s = [s]"
  by (induction s) auto

lemma split_on_append:
  "d \<notin> set p \<Longrightarrow> split_on d (p @ d # rest) = p # split_on d rest"
  by (induction p) auto

lemma split_on_nonempty: "split_on d s \<noteq> []"
  by (induction s) (auto split: list.split)

lemma split_on_two: "d \<in> set s \<Longrightarrow> 2 \<le> length (split_on d s)"
proof (induction s)
  case Nil
  then show ?case by simp
next
  case (Cons c cs)
  show ?case
  proof (cases "c = d")
    case True
    then show ?thesis
      using split_on_nonempty [of d cs] by (cases "split_on d cs") auto
  next
    case False
    with Cons show ?thesis by (auto split: list.split)
  qed
qed

lemma split_on_token:
  assumes "CHR ''-'' \<notin> set pfx" and "CHR ''-'' \<notin> set core"
  shows "split_on CHR ''-'' (pfx @ ''-'' @ core) = [pfx, core]"
  using assms by (simp add: split_on_append split_on_no_sep)

lemma find_match_eq:
  "find_match L cfg ft ts
     = map_option tok_id (find (\<lambda>t. hashToken L cfg ft (salt t) = token_hash t) ts)"
  by (induction ts) (simp_all add: timingSafeEqual_def Let_def)

text \<open>The predicate that picks the row a redemption matches.\<close>

lemma find_filter: "find Q (filter P xs) = find (\<lambda>x. P x \<and> Q x) xs"
  by (induction xs) simp_all

lemma find_none_iff: "find Q xs = None \<longleftrightarrow> (\<forall>x\<in>set xs. \<not> Q x)"
  by (simp add: find_None_iff Ball_def)

lemma find_unique:
  assumes "x \<in> set xs" and "Q x" and "\<And>y. y \<in> set xs \<Longrightarrow> Q y \<Longrightarrow> y = x"
  shows "find Q xs = Some x"
  using assms
proof (induction xs)
  case Nil
  then show ?case by simp
next
  case (Cons a xs)
  show ?case
  proof (cases "Q a")
    case True
    have "a = x" by (rule Cons.prems(3)) (simp_all add: True)
    moreover have "find Q (a # xs) = Some a" by (simp add: True)
    ultimately show ?thesis by (simp only:)
  next
    case False
    from Cons.prems(1) Cons.prems(2) False have mem: "x \<in> set xs" by auto
    have "find Q xs = Some x"
    proof (rule Cons.IH [OF mem Cons.prems(2)])
      fix y assume "y \<in> set xs" and "Q y"
      then show "y = x" by (intro Cons.prems(3)) simp_all
    qed
    then show ?thesis by (simp add: False)
  qed
qed

lemma find_by_id:
  assumes "t \<in> set ts" and "distinct (map tok_id ts)"
  shows "find (\<lambda>u. tok_id u = tok_id t) ts = Some t"
proof (rule find_unique [OF assms(1)])
  show "tok_id t = tok_id t" by (rule refl)
next
  fix y assume "y \<in> set ts" and "tok_id y = tok_id t"
  with assms show "y = t"
    by (simp add: distinct_map inj_on_def)
qed

lemma redeem_shape:
  assumes "CHR ''-'' \<notin> set pfx" and "CHR ''-'' \<notin> set core"
    and "length pfx = 4" and "length core = 8" and "agentId \<noteq> []"
  shows "redeemWithdrawalToken L cfg env d (Some (pfx @ ''-'' @ core)) (Some agentId) md
     = redeem_transaction L cfg env d (pfx @ ''-'' @ core) pfx agentId md"
  using assms
  by (simp add: redeemWithdrawalToken_def str_includes_def truthy_def split_on_append
      split_on_no_sep Let_def del: split_on.simps)

text \<open>No live row with the prefix verifies against the token: INVALID, nothing written.\<close>

lemma redeem_transaction_no_match:
  assumes "\<forall>u\<in>set (tokens d). prefix u = pfx \<and> status u = ACTIVE \<and> now_scan env < expires_at u
             \<longrightarrow> hashToken L cfg ft (salt u) \<noteq> token_hash u"
  shows "redeem_transaction L cfg env d ft pfx agentId md
     = (INVALID, d, [Begin, SelectCandidates pfx (now_scan env), Commit])"
proof -
  have "find_match L cfg ft (select_candidates d pfx (now_scan env)) = None"
    using assms
    by (auto simp: find_match_eq select_candidates_def find_filter find_none_iff)
  then show ?thesis
    by (simp add: redeem_transaction_def Let_def)
qed

text \<open>
  The token presented is the plaintext of the ACTIVE row \<open>t\<close>, and of no other row: the
  result depends on the two clock readings only.
\<close>

lemma redeem_transaction_active:
  assumes t: "t \<in> set (tokens d)" and act: "status t = ACTIVE"
    and first: "select_for_update d (tok_id t) = Some t"
    and pfx: "prefix t = pfx"
    and ver: "hashToken L cfg ft (salt t) = token_hash t"
    and only: "\<forall>u\<in>set (tokens d). hashToken L cfg ft (salt u) = token_hash u \<longrightarrow> u = t"
  shows "redeem_transaction L cfg env d ft pfx agentId md =
     (if expires_at t \<le> now_scan env
      then (INVALID, d, [Begin, SelectCandidates pfx (now_scan env), Commit])
      else if expires_at t \<le> now_lock env
      then (EXPIRED_OR_USED, d,
            [Begin, SelectCandidates pfx (now_scan env), SelectForUpdate (tok_id t), Commit])
      else (SUCCESS (tok_id t) (new_tx_id env),
            insert_attempt
              (insert_transaction (update_used d (tok_id t) (now_used env))
                 \<lparr>tx_id = new_tx_id env, tx_account_id = account_id t,
                    tx_token_id = tok_id t, tx_type = ''WITHDRAWAL'',
                    tx_amount = amount t, tx_status = ''SUCCESS''\<rparr>)
              \<lparr>att_token_id = tok_id t, att_agent_id = agentId,
                 att_result = ''SUCCESS'', att_metadata = md\<rparr>,
            [Begin, SelectCandidates pfx (now_scan env), SelectForUpdate (tok_id t),
             UpdateUsed (tok_id t) (now_used env), InsertTransaction (tok_id t),
             InsertAttempt (tok_id t) ''SUCCESS'', Commit]))"
proof (cases "expires_at t \<le> now_scan env")
  case True
  have "\<forall>u\<in>set (tokens d). prefix u = pfx \<and> status u = ACTIVE \<and> now_scan env < expires_at u
             \<longrightarrow> hashToken L cfg ft (salt u) \<noteq> token_hash u"
  proof (intro ballI impI notI)
    fix u
    assume u: "u \<in> set (tokens d)"
      and live: "prefix u = pfx \<and> status u = ACTIVE \<and> now_scan env < expires_at u"
      and h: "hashToken L cfg ft (salt u) = token_hash u"
    from only u h have "u = t" by blast
    with live True show False by simp
  qed
  from redeem_transaction_no_match [OF this] True show ?thesis by simp
next
  case False
  let ?Q = "\<lambda>u. (prefix u = pfx \<and> status u = ACTIVE \<and> now_scan env < expires_at u)
                \<and> hashToken L cfg ft (salt u) = token_hash u"
  have "find ?Q (tokens d) = Some t"
  proof (rule find_unique [OF t])
    show "?Q t" using act pfx ver False by simp
  next
    fix y assume "y \<in> set (tokens d)" and "?Q y"
    with only show "y = t" by blast
  qed
  then have m: "find_match L cfg ft (select_candidates d pfx (now_scan env)) = Some (tok_id t)"
    by (simp add: find_match_eq select_candidates_def find_filter)
  from False act show ?thesis
    by (simp add: redeem_transaction_def Let_def m first)
qed

lemma select_for_update_distinct:
  assumes "t \<in> set (tokens d)" and "distinct (map tok_id (tokens d))"
  shows "select_for_update d (tok_id t) = Some t"
  by (simp add: select_for_update_def find_by_id [OF assms])

lemma select_for_update_last:
  assumes "tok_id r \<notin> tok_id ` set ts"
  shows "select_for_update (d\<lparr>tokens := ts @ [r]\<rparr>) (tok_id r) = Some r"
proof -
  have "find (\<lambda>u. tok_id u = tok_id r) (ts @ [r]) = Some r"
  proof (rule find_unique)
    show "r \<in> set (ts @ [r])" by simp
    show "tok_id r = tok_id r" by (rule refl)
  next
    fix y assume y: "y \<in> set (ts @ [r])" and eq: "tok_id y = tok_id r"
    show "y = r"
    proof (rule ccontr)
      assume "y \<noteq> r"
      with y have "y \<in> set ts" by simp
      then have "tok_id y \<in> tok_id ` set ts" by (rule imageI)
      with eq assms show False by simp
    qed
  qed
  then show ?thesis by (simp add: select_for_update_def)
qed

text \<open>The rows of the store after the guarded update: a row still ACTIVE was not touched.\<close>

lemma update_used_active:
  assumes "u \<in> set (tokens (update_used d i now))" and "status u = ACTIVE"
  shows "u \<in> set (tokens d) \<and> tok_id u \<noteq> i"
  using assms by (auto simp: update_used_def split: if_splits)

lemma tokens_after_success:
  "tokens (insert_attempt (insert_transaction (update_used d i now) tx) att)
     = tokens (update_used d i now)"
  by (simp add: insert_attempt_def insert_transaction_def)


lemma db_minted_eq:
  "db_minted = \<lparr>tokens = [row_minted], transactions = [], redemption_attempts = []\<rparr>"
proof -
  have v: "joi_uuid len_lib acct0" by (simp add: len_lib_def)
  have x: "expirySeconds cfg0 = 300" by (simp add: cfg0_def)
  show ?thesis
    by (simp add: db_minted_def generateWithdrawalToken_def validateGenerationParams_def
        mint_loop.simps [of _ _ _ _ _ 0] MAX_RETRIES_def mint_attempt_eq draw_token_eq
        generateRandomToken_eq randomBytes_def insert_token_def Let_def charset_def
        v x world_ok_def zeros_def db_empty_def upt_rec advance_def row_minted_def
        zero_salt_def)
qed

lemma hash_differs:
  "hashToken len_lib cfg0 ''AAAA-BBBBBBBB'' zero_salt
     \<noteq> hashToken len_lib cfg0 ''AAAA-AAAAAAAA'' zero_salt"
  by (simp add: hashToken_eq len_lib_def cfg0_def utf8_def zero_salt_def)

lemma redeem_minted:
  "redeemWithdrawalToken len_lib cfg0 env db_minted (Some ''AAAA-AAAAAAAA'') (Some ''atm-1'') md
     = (if 301000 \<le> now_scan env
        then (INVALID, db_minted, [Begin, SelectCandidates ''AAAA'' (now_scan env), Commit])
        else if 301000 \<le> now_lock env
        then (EXPIRED_OR_USED, db_minted,
              [Begin, SelectCandidates ''AAAA'' (now_scan env), SelectForUpdate (UUID 7), Commit])
        else (SUCCESS (UUID 7) (new_tx_id env),
              \<lparr>tokens = [row_minted\<lparr>status := USED, used_at := Some (now_used env)\<rparr>],
                 transactions =
                   [\<lparr>tx_id = new_tx_id env, tx_account_id = acct0, tx_token_id = UUID 7,
                      tx_type = ''WITHDRAWAL'', tx_amount = 100, tx_status = ''SUCCESS''\<rparr>],
                 redemption_attempts =
                   [\<lparr>att_token_id = UUID 7, att_agent_id = ''atm-1'',
                      att_result = ''SUCCESS'', att_metadata = md\<rparr>]\<rparr>,
              [Begin, SelectCandidates ''AAAA'' (now_scan env), SelectForUpdate (UUID 7),
               UpdateUsed (UUID 7) (now_used env), InsertTransaction (UUID 7),
               InsertAttempt (UUID 7) ''SUCCESS'', Commit]))"
proof -
  have shape: "redeemWithdrawalToken len_lib cfg0 env db_minted (Some ''AAAA-AAAAAAAA'')
      (Some ''atm-1'') md
    = redeem_transaction len_lib cfg0 env db_minted ''AAAA-AAAAAAAA'' ''AAAA'' ''atm-1'' md"
    using redeem_shape [of "''AAAA''" "''AAAAAAAA''" "''atm-1''" len_lib cfg0 env db_minted md]
    by simp
  have t: "row_minted \<in> set (tokens db_minted)" by (simp add: db_minted_eq)
  have act: "status row_minted = ACTIVE" by (simp add: row_minted_def)
  have first: "select_for_update db_minted (tok_id row_minted) = Some row_minted"
    by (simp add: select_for_update_def db_minted_eq)
  have pfx: "prefix row_minted = ''AAAA''" by (simp add: row_minted_def)
  have ver: "hashToken len_lib cfg0 ''AAAA-AAAAAAAA'' (salt row_minted) = token_hash row_minted"
    by (simp add: row_minted_def)
  have only: "\<forall>u\<in>set (tokens db_minted).
      hashToken len_lib cfg0 ''AAAA-AAAAAAAA'' (salt u) = token_hash u \<longrightarrow> u = row_minted"
    by (simp add: db_minted_eq)
  have sel: "expires_at row_minted = 301000" "tok_id row_minted = UUID 7"
    "account_id row_minted = acct0" "amount row_minted = 100"
    by (simp_all add: row_minted_def)
  show ?thesis
    unfolding shape redeem_transaction_active [OF t act first pfx ver only] sel
    by (simp add: insert_attempt_def insert_transaction_def update_used_def db_minted_eq sel act)
qed

lemma db_redeemed_eq:
  "db_redeemed =
     \<lparr>tokens = [row_minted\<lparr>status := USED, used_at := Some 2002\<rparr>],
        transactions =
          [\<lparr>tx_id = UUID 9, tx_account_id = acct0, tx_token_id = UUID 7,
             tx_type = ''WITHDRAWAL'', tx_amount = 100, tx_status = ''SUCCESS''\<rparr>],
        redemption_attempts =
          [\<lparr>att_token_id = UUID 7, att_agent_id = ''atm-1'',
             att_result = ''SUCCESS'', att_metadata = md0\<rparr>]\<rparr>"
  by (simp add: db_redeemed_def redeem_minted renv_early_def)

lemma redeem_redeemed:
  "redeemWithdrawalToken len_lib cfg0 env db_redeemed (Some ''AAAA-AAAAAAAA'') (Some ''atm-1'') md
     = (INVALID, db_redeemed, [Begin, SelectCandidates ''AAAA'' (now_scan env), Commit])"
proof -
  have shape: "redeemWithdrawalToken len_lib cfg0 env db_redeemed (Some ''AAAA-AAAAAAAA'')
      (Some ''atm-1'') md
    = redeem_transaction len_lib cfg0 env db_redeemed ''AAAA-AAAAAAAA'' ''AAAA'' ''atm-1'' md"
    using redeem_shape [of "''AAAA''" "''AAAAAAAA''" "''atm-1''" len_lib cfg0 env db_redeemed md]
    by simp
  show ?thesis
    unfolding shape
    by (rule redeem_transaction_no_match) (simp add: db_redeemed_eq)
qed

text \<open>
  C1, as stated: after a mint and a successful redemption, the second redemption of the
  same plaintext returns EXPIRED_OR_USED. The candidate scan selects ACTIVE rows only, so
  the row, now USED, is not a candidate and the second redemption returns INVALID.
\<close>

theorem second_redeem_counterexample:
  "fst (generateWithdrawalToken len_lib cfg0 world_ok zeros db_empty acct0 100)
     = Inr (Some \<lparr>m_id = UUID 7, m_token = ''AAAA-AAAAAAAA'', m_amount = 100,
                   m_expiresAt = 301000\<rparr>)
   \<and> fst (redeemWithdrawalToken len_lib cfg0 renv_early db_minted (Some ''AAAA-AAAAAAAA'')
            (Some ''atm-1'') md0) = SUCCESS (UUID 7) (UUID 9)
   \<and> fst (redeemWithdrawalToken len_lib cfg0 renv_later db_redeemed (Some ''AAAA-AAAAAAAA'')
            (Some ''atm-1'') md0) = INVALID
   \<and> fst (redeemWithdrawalToken len_lib cfg0 renv_later db_redeemed (Some ''AAAA-AAAAAAAA'')
            (Some ''atm-1'') md0) \<noteq> EXPIRED_OR_USED"
  by (simp add: mint_example redeem_minted redeem_redeemed renv_early_def)

text \<open>
  C1, amended: for every minted token whose plaintext verifies against no other stored
  row, redeeming the returned plaintext once, before expiry, returns SUCCESS for that
  token, and a second redeem of the same plaintext afterwards returns INVALID and writes
  nothing.
\<close>

theorem mint_redeem_redeem:
  assumes mint: "generateWithdrawalToken L cfg W e d accountId amt = (Inr (Some m), st)"
    and fresh: "m_id m \<notin> tok_id ` set (tokens d)"
    and nocoll: "\<forall>t\<in>set (tokens d). hashToken L cfg (m_token m) (salt t) \<noteq> token_hash t"
    and agent: "agentId \<noteq> []"
    and live: "now_scan env1 < m_expiresAt m \<and> now_lock env1 < m_expiresAt m"
    and first: "redeemWithdrawalToken L cfg env1 (ms_db st) (Some (m_token m)) (Some agentId) md
                  = (r1, d1, ops1)"
    and second: "redeemWithdrawalToken L cfg env2 d1 (Some (m_token m)) agentId2 md2
                  = (r2, d2, ops2)"
  shows "r1 = SUCCESS (m_id m) (new_tx_id env1) \<and> r2 = INVALID \<and> d2 = d1"
proof -
  from mint_success [OF mint] obtain n where
    m: "m = \<lparr>m_id = gen_uuid (at_insert (W n)),
              m_token = attempt_plaintext L cfg W e accountId amt n, m_amount = amt,
              m_expiresAt = expires_at (attempt_row L cfg W e accountId amt n)\<rparr>"
    and db: "ms_db st = d\<lparr>tokens := tokens d @
            [(attempt_row L cfg W e accountId amt n)\<lparr>tok_id := gen_uuid (at_insert (W n)),
                                                      used_at := None\<rparr>]\<rparr>"
    by blast
  define r where "r = (attempt_row L cfg W e accountId amt n)
      \<lparr>tok_id := gen_uuid (at_insert (W n)), used_at := None\<rparr>"
  define pt where "pt = m_token m"
  from attempt_plaintext_shape [of L cfg W e accountId amt n] obtain core where
    pt: "pt = prefix r @ ''-'' @ core" and core: "length core = 8" "CHR ''-'' \<notin> set core"
    and pf: "length (prefix r) = 4" "CHR ''-'' \<notin> set (prefix r)"
    by (auto simp: r_def pt_def m)
  have idr: "tok_id r = m_id m" by (simp add: r_def m)
  have db': "ms_db st = d\<lparr>tokens := tokens d @ [r]\<rparr>" by (simp add: db r_def)
  have rin: "r \<in> set (tokens (ms_db st))" by (simp add: db')
  have act: "status r = ACTIVE" by (simp add: r_def attempt_row_fields)
  have exp: "expires_at r = m_expiresAt m" by (simp add: r_def m)
  have ver: "hashToken L cfg pt (salt r) = token_hash r"
    by (simp add: r_def pt_def m attempt_row_fields(1))
  have sel: "select_for_update (ms_db st) (tok_id r) = Some r"
    unfolding db' by (rule select_for_update_last) (use fresh idr in simp)
  have only: "\<forall>u\<in>set (tokens (ms_db st)). hashToken L cfg pt (salt u) = token_hash u \<longrightarrow> u = r"
    using nocoll by (auto simp: db' pt_def)
  have shape1: "redeemWithdrawalToken L cfg env1 (ms_db st) (Some pt) (Some agentId) md
      = redeem_transaction L cfg env1 (ms_db st) pt (prefix r) agentId md"
    unfolding pt by (rule redeem_shape) (use pf core agent in simp_all)
  let ?d1 = "insert_attempt
              (insert_transaction (update_used (ms_db st) (tok_id r) (now_used env1))
                 \<lparr>tx_id = new_tx_id env1, tx_account_id = account_id r,
                    tx_token_id = tok_id r, tx_type = ''WITHDRAWAL'',
                    tx_amount = amount r, tx_status = ''SUCCESS''\<rparr>)
              \<lparr>att_token_id = tok_id r, att_agent_id = agentId,
                 att_result = ''SUCCESS'', att_metadata = md\<rparr>"
  from first live have r1: "r1 = SUCCESS (m_id m) (new_tx_id env1)" and d1: "d1 = ?d1"
    unfolding pt_def [symmetric] shape1
      redeem_transaction_active [OF rin act sel refl ver only] exp idr
    by simp_all
  have dead: "\<forall>u\<in>set (tokens d1).
      prefix u = prefix r \<and> status u = ACTIVE \<and> now_scan env2 < expires_at u
        \<longrightarrow> hashToken L cfg pt (salt u) \<noteq> token_hash u"
  proof (intro ballI impI)
    fix u
    assume u: "u \<in> set (tokens d1)"
      and a: "prefix u = prefix r \<and> status u = ACTIVE \<and> now_scan env2 < expires_at u"
    from u have "u \<in> set (tokens (update_used (ms_db st) (tok_id r) (now_used env1)))"
      by (simp add: d1 tokens_after_success)
    from update_used_active [OF this] a
    have "u \<in> set (tokens (ms_db st))" and "tok_id u \<noteq> tok_id r" by simp_all
    then have "u \<in> set (tokens d)" by (auto simp: db')
    with nocoll show "hashToken L cfg pt (salt u) \<noteq> token_hash u"
      by (simp add: pt_def)
  qed
  have "r2 = INVALID \<and> d2 = d1"
  proof (cases "truthy agentId2")
    case False
    with second show ?thesis
      by (simp add: redeemWithdrawalToken_def)
  next
    case True
    then obtain a2 where a2: "agentId2 = Some a2" "a2 \<noteq> []"
      by (auto simp: truthy_def split: option.splits)
    have "redeemWithdrawalToken L cfg env2 d1 (Some pt) (Some a2) md2
      = redeem_transaction L cfg env2 d1 pt (prefix r) a2 md2"
      unfolding pt by (rule redeem_shape) (use pf core a2 in simp_all)
    with second a2 show ?thesis
      by (simp add: pt_def [symmetric] redeem_transaction_no_match [OF dead])
  qed
  with r1 show ?thesis by simp
qed

text \<open>
  On the empty store: the mint returns AAAA-AAAAAAAA, the redemption at 2000 succeeds,
  and the one at 3000 is INVALID and leaves the store as the first left it.
\<close>

theorem mint_redeem_redeem_witness:
  "fst (redeemWithdrawalToken len_lib cfg0 renv_early db_minted (Some ''AAAA-AAAAAAAA'')
          (Some ''atm-1'') md0) = SUCCESS (UUID 7) (UUID 9)
   \<and> fst (redeemWithdrawalToken len_lib cfg0 renv_later db_redeemed (Some ''AAAA-AAAAAAAA'')
            (Some ''atm-1'') md0) = INVALID
   \<and> fst (snd (redeemWithdrawalToken len_lib cfg0 renv_later db_redeemed
                  (Some ''AAAA-AAAAAAAA'') (Some ''atm-1'') md0)) = db_redeemed"
proof -
  let ?g = "generateWithdrawalToken len_lib cfg0 world_ok zeros db_empty acct0 100"
  let ?m = "\<lparr>m_id = UUID 7, m_token = ''AAAA-AAAAAAAA'', m_amount = 100,
             m_expiresAt = 301000\<rparr>"
  let ?r1 = "redeemWithdrawalToken len_lib cfg0 renv_early db_minted (Some ''AAAA-AAAAAAAA'')
          (Some ''atm-1'') md0"
  let ?r2 = "redeemWithdrawalToken len_lib cfg0 renv_later db_redeemed (Some ''AAAA-AAAAAAAA'')
          (Some ''atm-1'') md0"
  have mint: "?g = (Inr (Some ?m), snd ?g)"
    using mint_example by (simp add: prod_eq_iff)
  have fresh: "m_id ?m \<notin> tok_id ` set (tokens db_empty)"
    by (simp add: db_empty_def)
  have nocoll: "\<forall>t\<in>set (tokens db_empty).
      hashToken len_lib cfg0 (m_token ?m) (salt t) \<noteq> token_hash t"
    by (simp add: db_empty_def)
  have agent: "''atm-1'' \<noteq> []" by simp
  have live: "now_scan renv_early < m_expiresAt ?m \<and> now_lock renv_early < m_expiresAt ?m"
    by (simp add: renv_early_def)
  have first: "redeemWithdrawalToken len_lib cfg0 renv_early (ms_db (snd ?g))
      (Some (m_token ?m)) (Some ''atm-1'') md0 = (fst ?r1, db_redeemed, snd (snd ?r1))"
    by (simp add: db_minted_def [symmetric] db_redeemed_def)
  have second: "redeemWithdrawalToken len_lib cfg0 renv_later db_redeemed
      (Some (m_token ?m)) (Some ''atm-1'') md0 = (fst ?r2, fst (snd ?r2), snd (snd ?r2))"
    by simp
  from mint_redeem_redeem [OF mint fresh nocoll agent live first second]
  show ?thesis by (simp add: renv_early_def)
qed

text \<open>
  C2, as stated: every terminal outcome inserts exactly one row into
  \<open>redemption_attempts\<close>, and a no-match outcome writes a row with result INVALID. A
  well-formed token that matches no stored hash is INVALID and no row is written.
\<close>

theorem invalid_attempt_counterexample:
  "redeemWithdrawalToken len_lib cfg0 renv_early db_minted (Some ''AAAA-BBBBBBBB'')
      (Some ''atm-1'') md0
     = (INVALID, db_minted, [Begin, SelectCandidates ''AAAA'' 2000, Commit])
   \<and> redemption_attempts db_minted = []"
proof -
  have shape: "redeemWithdrawalToken len_lib cfg0 renv_early db_minted (Some ''AAAA-BBBBBBBB'')
      (Some ''atm-1'') md0
    = redeem_transaction len_lib cfg0 renv_early db_minted ''AAAA-BBBBBBBB'' ''AAAA'' ''atm-1'' md0"
    using redeem_shape [of "''AAAA''" "''BBBBBBBB''" "''atm-1''" len_lib cfg0 renv_early
        db_minted md0]
    by simp
  have "\<forall>u\<in>set (tokens db_minted).
      prefix u = ''AAAA'' \<and> status u = ACTIVE \<and> now_scan renv_early < expires_at u
        \<longrightarrow> hashToken len_lib cfg0 ''AAAA-BBBBBBBB'' (salt u) \<noteq> token_hash u"
    using hash_differs by (simp add: db_minted_eq row_minted_def)
  from redeem_transaction_no_match [OF this]
  have res: "redeemWithdrawalToken len_lib cfg0 renv_early db_minted (Some ''AAAA-BBBBBBBB'')
      (Some ''atm-1'') md0
    = (INVALID, db_minted, [Begin, SelectCandidates ''AAAA'' (now_scan renv_early), Commit])"
    unfolding shape .
  show ?thesis
    unfolding res by (simp add: renv_early_def db_minted_eq)
qed

text \<open>
  C2, amended: a SUCCESS outcome inserts exactly one row into \<open>redemption_attempts\<close>,
  with result SUCCESS, the redeemed token, the agent and the metadata; an INVALID outcome
  inserts none and leaves the store as it was.
\<close>

theorem attempt_row_on_success:
  assumes "redeemWithdrawalToken L cfg env d fullToken agentId md = (r, d', ops)"
  shows "(\<forall>tid txid. r = SUCCESS tid txid \<longrightarrow>
            (\<exists>a. agentId = Some a
               \<and> redemption_attempts d' = redemption_attempts d @
                    [\<lparr>att_token_id = tid, att_agent_id = a, att_result = ''SUCCESS'',
                       att_metadata = md\<rparr>]))
       \<and> (r = INVALID \<longrightarrow> d' = d)"
proof (cases "shape_ok fullToken agentId")
  case False
  with assms have "r = INVALID" and "d' = d"
    by (auto simp: redeemWithdrawalToken_def shape_ok_def str_includes_def Let_def
        split: option.splits if_splits)
  then show ?thesis by simp
next
  case True
  then obtain ft a where ft: "fullToken = Some ft" and a: "agentId = Some a"
    by (auto simp: shape_ok_def truthy_def split: option.splits)
  from True assms ft a
  have tr: "redeem_transaction L cfg env d ft (split_on CHR ''-'' ft ! 0) a md = (r, d', ops)"
    by (auto simp: redeemWithdrawalToken_def shape_ok_def str_includes_def Let_def
        split: if_splits)
  have inv: "r = INVALID \<longrightarrow> d' = d"
    using tr by (auto simp: redeem_transaction_def Let_def split: option.splits if_splits)
  have suc: "\<forall>tid txid. r = SUCCESS tid txid \<longrightarrow>
      redemption_attempts d' = redemption_attempts d @
        [\<lparr>att_token_id = tid, att_agent_id = a, att_result = ''SUCCESS'', att_metadata = md\<rparr>]"
    using tr
    by (auto simp: redeem_transaction_def Let_def insert_attempt_def insert_transaction_def
        update_used_def split: option.splits if_splits)
  from inv suc a show ?thesis by simp
qed

text \<open>
  The redemption at 2000 of the minted token writes its one SUCCESS row into the empty
  attempts table.
\<close>

theorem attempt_row_on_success_witness:
  "fst (redeemWithdrawalToken len_lib cfg0 renv_early db_minted (Some ''AAAA-AAAAAAAA'')
          (Some ''atm-1'') md0) = SUCCESS (UUID 7) (UUID 9)
   \<and> redemption_attempts db_minted = []
   \<and> (\<exists>a. Some ''atm-1'' = Some a
         \<and> redemption_attempts db_redeemed = redemption_attempts db_minted @
              [\<lparr>att_token_id = UUID 7, att_agent_id = a, att_result = ''SUCCESS'',
                 att_metadata = md0\<rparr>])"
proof -
  let ?r1 = "redeemWithdrawalToken len_lib cfg0 renv_early db_minted (Some ''AAAA-AAAAAAAA'')
          (Some ''atm-1'') md0"
  have run: "?r1 = (SUCCESS (UUID 7) (UUID 9), db_redeemed, snd (snd ?r1))"
    by (simp add: prod_eq_iff db_redeemed_def redeem_minted renv_early_def)
  from attempt_row_on_success [OF run]
  have "\<exists>a. Some ''atm-1'' = Some a
         \<and> redemption_attempts db_redeemed = redemption_attempts db_minted @
              [\<lparr>att_token_id = UUID 7, att_agent_id = a, att_result = ''SUCCESS'',
                 att_metadata = md0\<rparr>]"
    by blast
  moreover have "fst ?r1 = SUCCESS (UUID 7) (UUID 9)"
    by (simp add: redeem_minted renv_early_def)
  moreover have "redemption_attempts db_minted = []"
    by (simp add: db_minted_eq)
  ultimately show ?thesis by blast
qed

lemma pattern_split:
  assumes "matches_pattern s"
  shows "split_on CHR ''-'' s = [take 4 s, drop 5 s] \<and> length (take 4 s) = 4
     \<and> length (drop 5 s) = 8 \<and> CHR ''-'' \<in> set s"
proof -
  from assms have len: "length s = 13" and dash: "s ! 4 = CHR ''-''"
    and pre: "list_all is_token_char (take 4 s)" and post: "list_all is_token_char (drop 5 s)"
    by (simp_all add: matches_pattern_def)
  from len have "s = take 4 s @ s ! 4 # drop (Suc 4) s"
    by (intro id_take_nth_drop) simp
  with dash have s: "s = take 4 s @ CHR ''-'' # drop 5 s" by simp
  have nd: "\<And>cs. list_all is_token_char cs \<Longrightarrow> CHR ''-'' \<notin> set cs"
    using dash_not_in_charset by (auto simp: list_all_iff is_token_char_def)
  have "split_on CHR ''-'' (take 4 s @ CHR ''-'' # drop 5 s) = [take 4 s, drop 5 s]"
    by (simp add: split_on_append split_on_no_sep nd [OF pre] nd [OF post]
        del: split_on.simps)
  with s have "split_on CHR ''-'' s = [take 4 s, drop 5 s]" by simp
  moreover from s have "CHR ''-'' \<in> set s"
    by (metis in_set_conv_decomp)
  ultimately show ?thesis using len by simp
qed

text \<open>
  C3, as stated: every \<open>fullToken\<close> that does not match \<open>^[A-Z0-9]{4}-[A-Z0-9]{8}$\<close> is
  rejected without any database access. A lower-case token of the right shape does not
  match the pattern, and the service opens the transaction and scans the candidates.
\<close>

theorem pattern_mismatch_counterexample:
  "\<not> matches_pattern ''abcd-efghijkl''
   \<and> redeemWithdrawalToken len_lib cfg0 renv_early db_minted (Some ''abcd-efghijkl'')
        (Some ''atm-1'') md0
     = (INVALID, db_minted, [Begin, SelectCandidates ''abcd'' 2000, Commit])"
proof -
  have shape: "redeemWithdrawalToken len_lib cfg0 renv_early db_minted (Some ''abcd-efghijkl'')
      (Some ''atm-1'') md0
    = redeem_transaction len_lib cfg0 renv_early db_minted ''abcd-efghijkl'' ''abcd'' ''atm-1'' md0"
    using redeem_shape [of "''abcd''" "''efghijkl''" "''atm-1''" len_lib cfg0 renv_early
        db_minted md0]
    by simp
  have "\<forall>u\<in>set (tokens db_minted).
      prefix u = ''abcd'' \<and> status u = ACTIVE \<and> now_scan renv_early < expires_at u
        \<longrightarrow> hashToken len_lib cfg0 ''abcd-efghijkl'' (salt u) \<noteq> token_hash u"
    by (simp add: db_minted_eq row_minted_def)
  from redeem_transaction_no_match [OF this]
  have res: "redeemWithdrawalToken len_lib cfg0 renv_early db_minted (Some ''abcd-efghijkl'')
      (Some ''atm-1'') md0
    = (INVALID, db_minted, [Begin, SelectCandidates ''abcd'' (now_scan renv_early), Commit])"
    unfolding shape .
  have "\<not> matches_pattern ''abcd-efghijkl''"
    by (simp add: matches_pattern_def is_token_char_def charset_def)
  then show ?thesis
    unfolding res by (simp add: renv_early_def)
qed

text \<open>
  C3, amended: when \<open>fullToken\<close> is missing or empty, has no '-', or its first two
  '-'-separated pieces are not of lengths 4 and 8, or when \<open>agentId\<close> is missing or empty,
  the redemption returns INVALID without any database access; on every other input it
  opens the transaction and scans the candidates of the first piece. Every token that
  matches the pattern passes these checks.
\<close>

theorem shape_check_without_db:
  "(\<not> shape_ok fullToken agentId \<longrightarrow>
      redeemWithdrawalToken L cfg env d fullToken agentId md = (INVALID, d, []))
   \<and> (shape_ok fullToken agentId \<longrightarrow>
        (\<exists>rest. snd (snd (redeemWithdrawalToken L cfg env d fullToken agentId md))
           = Begin # SelectCandidates (split_on CHR ''-'' (the fullToken) ! 0) (now_scan env)
               # rest))
   \<and> (matches_pattern ft \<and> truthy agentId \<longrightarrow> shape_ok (Some ft) agentId)"
proof (intro conjI impI)
  assume "\<not> shape_ok fullToken agentId"
  then show "redeemWithdrawalToken L cfg env d fullToken agentId md = (INVALID, d, [])"
    by (auto simp: redeemWithdrawalToken_def shape_ok_def str_includes_def Let_def
        split: option.splits)
next
  assume ok: "shape_ok fullToken agentId"
  then obtain t a where t: "fullToken = Some t" and a: "agentId = Some a"
    by (auto simp: shape_ok_def truthy_def split: option.splits)
  from ok t a
  have "redeemWithdrawalToken L cfg env d fullToken agentId md
      = redeem_transaction L cfg env d t (split_on CHR ''-'' t ! 0) a md"
    by (auto simp: redeemWithdrawalToken_def shape_ok_def str_includes_def Let_def)
  then show "\<exists>rest. snd (snd (redeemWithdrawalToken L cfg env d fullToken agentId md))
           = Begin # SelectCandidates (split_on CHR ''-'' (the fullToken) ! 0) (now_scan env)
               # rest"
    by (simp add: t redeem_transaction_def Let_def split: option.split)
next
  assume "matches_pattern ft \<and> truthy agentId"
  with pattern_split [of ft] show "shape_ok (Some ft) agentId"
    by (simp add: shape_ok_def)
qed

text \<open>
  The token \<open>abc-xyz\<close> fails the length checks and is rejected with no statement sent;
  AAAA-AAAAAAAA matches the pattern, passes, and the scan for AAAA is sent.
\<close>

theorem shape_check_without_db_witness:
  "\<not> shape_ok (Some ''abc-xyz'') (Some ''atm-1'')
   \<and> redeemWithdrawalToken len_lib cfg0 renv_early db_minted (Some ''abc-xyz'')
        (Some ''atm-1'') md0 = (INVALID, db_minted, [])
   \<and> matches_pattern ''AAAA-AAAAAAAA'' \<and> truthy (Some ''atm-1'')
   \<and> shape_ok (Some ''AAAA-AAAAAAAA'') (Some ''atm-1'')
   \<and> (\<exists>rest. snd (snd (redeemWithdrawalToken len_lib cfg0 renv_early db_minted
                          (Some ''AAAA-AAAAAAAA'') (Some ''atm-1'') md0))
         = Begin # SelectCandidates ''AAAA'' 2000 # rest)"
proof -
  note th = shape_check_without_db [of _ _ len_lib cfg0 renv_early db_minted md0]
  have bad: "\<not> shape_ok (Some ''abc-xyz'') (Some ''atm-1'')"
    by (simp add: shape_ok_def)
  have pat: "matches_pattern ''AAAA-AAAAAAAA'' \<and> truthy (Some ''atm-1'')"
    by (simp add: matches_pattern_def is_token_char_def charset_def truthy_def)
  from th [of "Some ''abc-xyz''" "Some ''atm-1''" "''AAAA-AAAAAAAA''"] bad
  have r: "redeemWithdrawalToken len_lib cfg0 renv_early db_minted (Some ''abc-xyz'')
        (Some ''atm-1'') md0 = (INVALID, db_minted, [])"
    by blast
  from th [of "Some ''abc-xyz''" "Some ''atm-1''" "''AAAA-AAAAAAAA''"] pat
  have ok: "shape_ok (Some ''AAAA-AAAAAAAA'') (Some ''atm-1'')"
    by blast
  with th [of "Some ''AAAA-AAAAAAAA''" "Some ''atm-1''" "''AAAA-AAAAAAAA''"]
  have "\<exists>rest. snd (snd (redeemWithdrawalToken len_lib cfg0 renv_early db_minted
                          (Some ''AAAA-AAAAAAAA'') (Some ''atm-1'') md0))
         = Begin # SelectCandidates (split_on CHR ''-'' (the (Some ''AAAA-AAAAAAAA'')) ! 0)
                     (now_scan renv_early) # rest"
    by blast
  moreover have "split_on CHR ''-'' (the (Some ''AAAA-AAAAAAAA'')) ! 0 = ''AAAA''"
    by simp
  moreover have "now_scan renv_early = 2000" by (simp add: renv_early_def)
  ultimately have "\<exists>rest. snd (snd (redeemWithdrawalToken len_lib cfg0 renv_early db_minted
                          (Some ''AAAA-AAAAAAAA'') (Some ''atm-1'') md0))
         = Begin # SelectCandidates ''AAAA'' 2000 # rest"
    by (simp only:)
  with bad r pat ok show ?thesis by blast
qed

text \<open>
  C4, as stated: redeeming an ACTIVE token at an instant \<open>now \<ge> expires_at\<close>, also at
  \<open>now = expires_at\<close>, returns EXPIRED_OR_USED. The candidate scan keeps the rows with
  \<open>expires_at > now\<close> only, so at \<open>now = expires_at\<close> the row is not a candidate and the
  result is INVALID.
\<close>

theorem redeem_at_expiry_counterexample:
  "row_minted \<in> set (tokens db_minted) \<and> status row_minted = ACTIVE
   \<and> expires_at row_minted = 301000
   \<and> now_scan renv_at_expiry = 301000 \<and> now_lock renv_at_expiry = 301000
   \<and> redeemWithdrawalToken len_lib cfg0 renv_at_expiry db_minted (Some ''AAAA-AAAAAAAA'')
        (Some ''atm-1'') md0
     = (INVALID, db_minted, [Begin, SelectCandidates ''AAAA'' 301000, Commit])"
proof -
  have "redeemWithdrawalToken len_lib cfg0 renv_at_expiry db_minted (Some ''AAAA-AAAAAAAA'')
        (Some ''atm-1'') md0
     = (INVALID, db_minted, [Begin, SelectCandidates ''AAAA'' 301000, Commit])"
    by (simp add: redeem_minted renv_at_expiry_def)
  moreover have "row_minted \<in> set (tokens db_minted)"
    by (simp add: db_minted_eq)
  moreover have "status row_minted = ACTIVE" "expires_at row_minted = 301000"
    by (simp_all add: row_minted_def)
  moreover have "now_scan renv_at_expiry = 301000" "now_lock renv_at_expiry = 301000"
    by (simp_all add: renv_at_expiry_def)
  ultimately show ?thesis by blast
qed

text \<open>
  C4, amended: let the token presented be the plaintext of an ACTIVE row and of no other.
  If the clock has reached \<open>expires_at\<close> when the candidates are scanned, the redemption
  returns INVALID; if it reaches \<open>expires_at\<close> between the scan and the check under the
  lock, it returns EXPIRED_OR_USED; in both cases the store is left as it was, so the row
  is not set to USED and no ledger row is inserted. Both comparisons are strict: the
  redemption succeeds exactly when \<open>now < expires_at\<close> holds at both readings.
\<close>

theorem redeem_expiry_strict:
  assumes "t \<in> set (tokens d)" and "status t = ACTIVE"
    and "distinct (map tok_id (tokens d))"
    and "fullToken = prefix t @ ''-'' @ core"
    and "length (prefix t) = 4 \<and> length core = 8"
    and "CHR ''-'' \<notin> set (prefix t) \<and> CHR ''-'' \<notin> set core"
    and "hashToken L cfg fullToken (salt t) = token_hash t"
    and "\<forall>u\<in>set (tokens d). hashToken L cfg fullToken (salt u) = token_hash u \<longrightarrow> u = t"
    and "agentId \<noteq> []"
    and "redeemWithdrawalToken L cfg env d (Some fullToken) (Some agentId) md = (r, d', ops)"
  shows "(expires_at t \<le> now_scan env \<longrightarrow> r = INVALID \<and> d' = d)
     \<and> (now_scan env < expires_at t \<and> expires_at t \<le> now_lock env \<longrightarrow>
          r = EXPIRED_OR_USED \<and> d' = d)
     \<and> (r = SUCCESS (tok_id t) (new_tx_id env)
          \<longleftrightarrow> now_scan env < expires_at t \<and> now_lock env < expires_at t)
     \<and> ((\<exists>tid txid. r = SUCCESS tid txid)
          \<longleftrightarrow> now_scan env < expires_at t \<and> now_lock env < expires_at t)"
proof -
  have shape: "redeemWithdrawalToken L cfg env d (Some fullToken) (Some agentId) md
      = redeem_transaction L cfg env d fullToken (prefix t) agentId md"
    unfolding assms(4) by (rule redeem_shape) (use assms(5,6,9) in simp_all)
  note sel = select_for_update_distinct [OF assms(1) assms(3)]
  note act = redeem_transaction_active [OF assms(1) assms(2) sel refl assms(7) assms(8)]
  from assms(10) show ?thesis
    unfolding shape act by (auto split: if_splits)
qed

text \<open>
  The minted row expires at 301000. With both readings at 301000 the redemption is
  INVALID; with the scan at 300999 and the check at 301000 it is EXPIRED_OR_USED; the
  store is unchanged both times.
\<close>

theorem redeem_expiry_strict_witness:
  "expires_at row_minted = now_scan renv_at_expiry
   \<and> fst (redeemWithdrawalToken len_lib cfg0 renv_at_expiry db_minted (Some ''AAAA-AAAAAAAA'')
            (Some ''atm-1'') md0) = INVALID
   \<and> fst (snd (redeemWithdrawalToken len_lib cfg0 renv_at_expiry db_minted
                  (Some ''AAAA-AAAAAAAA'') (Some ''atm-1'') md0)) = db_minted
   \<and> now_scan renv_straddle < expires_at row_minted
   \<and> expires_at row_minted = now_lock renv_straddle
   \<and> fst (redeemWithdrawalToken len_lib cfg0 renv_straddle db_minted (Some ''AAAA-AAAAAAAA'')
            (Some ''atm-1'') md0) = EXPIRED_OR_USED
   \<and> fst (snd (redeemWithdrawalToken len_lib cfg0 renv_straddle db_minted
                  (Some ''AAAA-AAAAAAAA'') (Some ''atm-1'') md0)) = db_minted"
proof -
  let ?ra = "redeemWithdrawalToken len_lib cfg0 renv_at_expiry db_minted (Some ''AAAA-AAAAAAAA'')
            (Some ''atm-1'') md0"
  let ?rs = "redeemWithdrawalToken len_lib cfg0 renv_straddle db_minted (Some ''AAAA-AAAAAAAA'')
            (Some ''atm-1'') md0"
  have h1: "row_minted \<in> set (tokens db_minted)" by (simp add: db_minted_eq)
  have h2: "status row_minted = ACTIVE" by (simp add: row_minted_def)
  have h3: "distinct (map tok_id (tokens db_minted))" by (simp add: db_minted_eq)
  have h4: "''AAAA-AAAAAAAA'' = prefix row_minted @ ''-'' @ ''AAAAAAAA''"
    by (simp add: row_minted_def)
  have h5: "length (prefix row_minted) = 4 \<and> length ''AAAAAAAA'' = 8"
    by (simp add: row_minted_def)
  have h6: "CHR ''-'' \<notin> set (prefix row_minted) \<and> CHR ''-'' \<notin> set ''AAAAAAAA''"
    by (simp add: row_minted_def)
  have h7: "hashToken len_lib cfg0 ''AAAA-AAAAAAAA'' (salt row_minted) = token_hash row_minted"
    by (simp add: row_minted_def)
  have h8: "\<forall>u\<in>set (tokens db_minted).
      hashToken len_lib cfg0 ''AAAA-AAAAAAAA'' (salt u) = token_hash u \<longrightarrow> u = row_minted"
    by (simp add: db_minted_eq)
  have h9: "''atm-1'' \<noteq> []" by simp
  have ra: "?ra = (fst ?ra, fst (snd ?ra), snd (snd ?ra))"
    and rs: "?rs = (fst ?rs, fst (snd ?rs), snd (snd ?rs))"
    by simp_all
  have e: "expires_at row_minted = 301000" by (simp add: row_minted_def)
  have ta: "expires_at row_minted \<le> now_scan renv_at_expiry"
    and ts: "now_scan renv_straddle < expires_at row_minted
          \<and> expires_at row_minted \<le> now_lock renv_straddle"
    by (simp_all add: e renv_at_expiry_def renv_straddle_def)
  from redeem_expiry_strict [OF h1 h2 h3 h4 h5 h6 h7 h8 h9 ra] ta
  have a: "fst ?ra = INVALID \<and> fst (snd ?ra) = db_minted" by blast
  from redeem_expiry_strict [OF h1 h2 h3 h4 h5 h6 h7 h8 h9 rs] ts
  have s: "fst ?rs = EXPIRED_OR_USED \<and> fst (snd ?rs) = db_minted" by blast
  have "expires_at row_minted = now_scan renv_at_expiry"
    and "now_scan renv_straddle < expires_at row_minted"
    and "expires_at row_minted = now_lock renv_straddle"
    by (simp_all add: e renv_at_expiry_def renv_straddle_def)
  with a s show ?thesis by blast
qed


section \<open>Rate limiter: properties\<close>

lemma logSecurity_cases:
  "logSecurity configured lvl m st = Inr st \<or> logSecurity configured lvl m st = Inl ''TypeError''"
  by (simp add: logSecurity_def pino_method_def Let_def)

lemma logSecurity_error_throws:
  "level_enabled configured ''error'' \<Longrightarrow>
     logSecurity configured ''error'' m st = Inl ''TypeError''"
  by (simp add: logSecurity_def pino_method_def Let_def level_value_def)

lemma logError_security:
  "security_entries (logError configured m st) = security_entries st"
  by (simp add: logError_def pino_method_def security_entries_def)

lemma logError_sel:
  "ls_reply (logError configured m st) = ls_reply st"
  "ls_cmds (logError configured m st) = ls_cmds st"
  by (simp_all add: logError_def pino_method_def)

text \<open>
  The \<open>try\<close> block never writes to the log. When it is left by an exception, the reply is
  as it was; when it runs to its end, no command has failed.
\<close>

lemma try_block_cases:
  assumes "failed_cmds st = []"
  shows "case try_block configured opts R now uuid request st of
           Inl (e, st') \<Rightarrow> ls_reply st' = ls_reply st \<and> ls_log st' = ls_log st
         | Inr st' \<Rightarrow> failed_cmds st' = [] \<and> ls_log st' = ls_log st"
proof -
  have ls: "\<And>l m s s'. logSecurity configured l m s = Inr s' \<Longrightarrow> s' = s"
    using logSecurity_cases by (metis Inl_Inr_False sum.inject(2))
  show ?thesis
    using assms
    by (auto simp: try_block_def await_def Let_def failed_cmds_def reply_send_def
        split: sum.splits if_splits dest!: ls)
qed

lemma fresh_state_sel:
  "failed_cmds fresh_state = []" "security_entries fresh_state = []"
  "sent (ls_reply fresh_state) = None" "statusCode (ls_reply fresh_state) = 200"
  "ls_log fresh_state = []"
  by (simp_all add: fresh_state_def failed_cmds_def security_entries_def)

text \<open>Whatever Redis answers and whatever the level, the limiter writes no log entry.\<close>

lemma limiter_never_logs:
  "ls_log (snd (rateLimiter configured opts R now uuid request fresh_state)) = []"
proof (cases "try_block configured opts R now uuid request fresh_state")
  case (Inr st')
  with try_block_cases [OF fresh_state_sel(1), of configured opts R now uuid request]
  show ?thesis by (simp add: rateLimiter_def fresh_state_sel)
next
  case (Inl p)
  obtain e st' where p: "p = (e, st')" by (cases p)
  from try_block_cases [OF fresh_state_sel(1), of configured opts R now uuid request] Inl p
  have lg: "ls_log st' = []" by (simp add: fresh_state_sel)
  from logSecurity_cases [of configured "''error''" "''Rate limiter Redis error''" st'] lg
  show ?thesis by (auto simp: rateLimiter_def Inl p)
qed

text \<open>
  At the default level, with Redis answering and no member in the window, the hook
  resolves with the headers set and nothing sent.
\<close>

lemma limiter_under_limit:
  "rateLimiter ''info'' opts0 redis_idle 1000 ''u'' request0 fresh_state
     = (Resolved,
        \<lparr>ls_reply = \<lparr>statusCode = 200, sent = None,
                     headers = [(''X-RateLimit-Limit'', 10), (''X-RateLimit-Remaining'', 9),
                                (''X-RateLimit-Reset'', 61000)],
                     send_hooks = []\<rparr>,
        ls_log = [],
        ls_cmds = [(ZREMRANGEBYSCORE ''rate_limit:10.0.0.1:/tokens'' 0 (- 59000), Inr 1),
                   (ZCARD ''rate_limit:10.0.0.1:/tokens'', Inr 0),
                   (ZADD ''rate_limit:10.0.0.1:/tokens'' 1000 ''req-1'', Inr 1),
                   (EXPIRE ''rate_limit:10.0.0.1:/tokens'' 60, Inr 1)]\<rparr>)"
  by (simp add: rateLimiter_def try_block_def await_def Let_def opts0_def request0_def
      redis_idle_def fresh_state_def default_keyGenerator_def or_default_def
      Math_ceil_def)

text \<open>
  At the default level and over the limit, \<open>logSecurity('warn', ...)\<close> throws before the
  429 is sent, the \<open>catch\<close> throws again, and the hook rejects with nothing sent.
\<close>

lemma limiter_over_limit:
  "fst (rateLimiter ''info'' opts0 redis_full 1000 ''u'' request0 fresh_state)
     = Rejected ''TypeError''
   \<and> sent (ls_reply (snd (rateLimiter ''info'' opts0 redis_full 1000 ''u'' request0
                             fresh_state))) = None
   \<and> failed_cmds (snd (rateLimiter ''info'' opts0 redis_full 1000 ''u'' request0
                          fresh_state)) = []"
  by (simp add: rateLimiter_def try_block_def await_def Let_def opts0_def request0_def
      redis_full_def fresh_state_def default_keyGenerator_def or_default_def
      logSecurity_def pino_method_def level_enabled_def level_value_def failed_cmds_def)

text \<open>
  C8. The claim: if a Redis operation inside the rate limiter fails, the middleware logs
  a SECURITY error and lets the request proceed. The code does neither when the error
  level of the logger is enabled, as it is at the default level \<open>info\<close>: once a command
  awaited in the \<open>try\<close> block is rejected, the \<open>catch\<close> calls \<open>logSecurity\<close>, the detached
  pino method throws, the hook rejects, no SECURITY entry is written, the handler does
  not run and the error handler answers 500.
\<close>

theorem limiter_rejects_on_redis_failure:
  assumes "level_enabled configured ''error''"
    and "failed_cmds (snd (rateLimiter configured opts R now uuid request fresh_state)) \<noteq> []"
  shows "fst (rateLimiter configured opts R now uuid request fresh_state) = Rejected ''TypeError''
     \<and> security_entries (snd (rateLimiter configured opts R now uuid request fresh_state)) = []
     \<and> \<not> snd (handle_request configured opts R now uuid request handler_status handler_body)
     \<and> sent (ls_reply (fst (handle_request configured opts R now uuid request handler_status
                handler_body))) = Some (ErrorResponse 500)
     \<and> security_entries (fst (handle_request configured opts R now uuid request handler_status
                handler_body)) = []"
proof (cases "try_block configured opts R now uuid request fresh_state")
  case (Inr st')
  with try_block_cases [OF fresh_state_sel(1), of configured opts R now uuid request]
  have "failed_cmds st' = []" by simp
  with assms(2) Inr show ?thesis by (simp add: rateLimiter_def)
next
  case (Inl p)
  obtain e st' where p: "p = (e, st')" by (cases p)
  have out: "rateLimiter configured opts R now uuid request fresh_state
      = (Rejected ''TypeError'', st')"
    by (simp add: rateLimiter_def Inl p logSecurity_error_throws [OF assms(1)])
  from limiter_never_logs [of configured opts R now uuid request]
  have lg: "ls_log st' = []" by (simp add: out)
  have se: "security_entries st' = []" by (simp add: security_entries_def lg)
  have h: "handle_request configured opts R now uuid request handler_status handler_body
      = (errorHandler configured R ''TypeError'' st', False)"
    by (simp add: handle_request_def out)
  have "sent (ls_reply (errorHandler configured R ''TypeError'' st')) = Some (ErrorResponse 500)"
    by (simp add: errorHandler_def Let_def reply_send_def)
  moreover have "security_entries (errorHandler configured R ''TypeError'' st') = []"
    by (simp add: errorHandler_def Let_def reply_send_def security_entries_def
        logError_def pino_method_def lg)
  ultimately show ?thesis by (simp add: out h se)
qed

text \<open>
  The failing input: the level \<open>info\<close>, the default limiter options, and a Redis that
  refuses the first command, \<open>ZREMRANGEBYSCORE\<close>. The hook rejects with the TypeError, the
  log holds the two ERROR entries of the error handler and no SECURITY entry, the handler
  has not run, and the reply is the 500 of the error handler.
\<close>

theorem limiter_rejects_on_redis_failure_witness:
  "level_enabled ''info'' ''error''
   \<and> failed_cmds (snd (rateLimiter ''info'' opts0 redis_down 1000 ''u'' request0 fresh_state))
       = [ZREMRANGEBYSCORE ''rate_limit:10.0.0.1:/tokens'' 0 (- 59000)]
   \<and> fst (rateLimiter ''info'' opts0 redis_down 1000 ''u'' request0 fresh_state)
       = Rejected ''TypeError''
   \<and> security_entries (snd (rateLimiter ''info'' opts0 redis_down 1000 ''u'' request0
                               fresh_state)) = []
   \<and> \<not> snd (handle_request ''info'' opts0 redis_down 1000 ''u'' request0 201 ''created'')
   \<and> sent (ls_reply (fst (handle_request ''info'' opts0 redis_down 1000 ''u'' request0 201
                             ''created''))) = Some (ErrorResponse 500)
   \<and> security_entries (fst (handle_request ''info'' opts0 redis_down 1000 ''u'' request0 201
                               ''created'')) = []
   \<and> ls_log (fst (handle_request ''info'' opts0 redis_down 1000 ''u'' request0 201 ''created''))
       = [\<lparr>level = ''error'', event_type = ''ERROR'', msg = ''TypeError''\<rparr>,
          \<lparr>level = ''error'', event_type = ''ERROR'', msg = ''TypeError''\<rparr>]"
proof -
  let ?r = "rateLimiter ''info'' opts0 redis_down 1000 ''u'' request0 fresh_state"
  let ?h = "handle_request ''info'' opts0 redis_down 1000 ''u'' request0 201 ''created''"
  have en: "level_enabled ''info'' ''error''"
    by (simp add: level_enabled_def level_value_def)
  have r: "?r = (Rejected ''TypeError'',
      \<lparr>ls_reply = \<lparr>statusCode = 200, sent = None, headers = [], send_hooks = []\<rparr>,
         ls_log = [],
         ls_cmds = [(ZREMRANGEBYSCORE ''rate_limit:10.0.0.1:/tokens'' 0 (- 59000),
                     Inl ''ECONNREFUSED'')]\<rparr>)"
    by (simp add: rateLimiter_def try_block_def await_def Let_def opts0_def request0_def
        redis_down_def fresh_state_def default_keyGenerator_def or_default_def
        logSecurity_error_throws [OF en])
  have f: "failed_cmds (snd ?r)
       = [ZREMRANGEBYSCORE ''rate_limit:10.0.0.1:/tokens'' 0 (- 59000)]"
    by (simp add: r failed_cmds_def)
  then have ne: "failed_cmds (snd ?r) \<noteq> []" by simp
  have lg: "ls_log (fst ?h)
       = [\<lparr>level = ''error'', event_type = ''ERROR'', msg = ''TypeError''\<rparr>,
          \<lparr>level = ''error'', event_type = ''ERROR'', msg = ''TypeError''\<rparr>]"
    unfolding handle_request_def r
    by (simp add: errorHandler_def Let_def reply_send_def logError_def pino_method_def en)
  from limiter_rejects_on_redis_failure [OF en ne, of 201 "''created''"] en f lg
  show ?thesis by blast
qed

end
